theory Spec2Isabelle
  imports Complex_Main
begin

section \<open>JavaScript values\<close>

text \<open>
  The data fragment of JavaScript values that the snapshot mechanism of
  \<^verbatim>\<open>19-memento.js\<close> copies: \<^verbatim>\<open>undefined\<close>, \<^verbatim>\<open>null\<close>, booleans, numbers,
  strings, arrays and plain objects.  A finite number is a rational here (every finite
  double is one; negative zero is not told apart from zero); the three non-finite
  numbers are separate values.  A plain object is its list of own enumerable
  properties, in property order; the round trip below keeps that order, as
  \<^verbatim>\<open>JSON.stringify\<close> writes the properties in it and \<^verbatim>\<open>JSON.parse\<close> creates them in it.  Functions, symbols, \<^verbatim>\<open>Date\<close> objects, big integers
  and cyclic structures are outside the fragment.  The same type gives the value a
  method call evaluates to.
\<close>

datatype jsnum = Finite rat | NaN | PosInfinity | NegInfinity

datatype jsval =
    JUndefined
  | JNull
  | JBool bool
  | JNum jsnum
  | JStr string
  | JArr "jsval list"
  | JObj "(string \<times> jsval) list"

type_synonym props = "(string \<times> jsval) list"

text \<open>
  \<^verbatim>\<open>JSON.parse(JSON.stringify(v))\<close> for a value \<open>v\<close> in property or element position.
  \<^verbatim>\<open>JSON.stringify\<close> produces no text for \<^verbatim>\<open>undefined\<close> (the result \<open>JUndefined\<close>
  stands for that), writes a non-finite number as \<^verbatim>\<open>null\<close>, writes \<^verbatim>\<open>null\<close> for an
  array element without text and leaves out an object property without text.
\<close>

primrec json_copy :: "jsval \<Rightarrow> jsval" where
  "json_copy JUndefined = JUndefined"
| "json_copy JNull = JNull"
| "json_copy (JBool b) = JBool b"
| "json_copy (JNum n) = (case n of Finite q \<Rightarrow> JNum (Finite q) | _ \<Rightarrow> JNull)"
| "json_copy (JStr s) = JStr s"
| "json_copy (JArr xs) =
     JArr (map (\<lambda>v. if v = JUndefined then JNull else v) (map json_copy xs))"
| "json_copy (JObj ps) =
     JObj (filter (\<lambda>p. snd p \<noteq> JUndefined) (map (map_prod id json_copy) ps))"

text \<open>The round trip of a plain object, as its property list.\<close>

definition json_props :: "props \<Rightarrow> props" where
  "json_props ps = filter (\<lambda>p. snd p \<noteq> JUndefined) (map (map_prod id json_copy) ps)"

text \<open>A value that JSON text represents exactly.\<close>

primrec json_safe :: "jsval \<Rightarrow> bool" where
  "json_safe JUndefined = False"
| "json_safe JNull = True"
| "json_safe (JBool b) = True"
| "json_safe (JNum n) = (case n of Finite q \<Rightarrow> True | _ \<Rightarrow> False)"
| "json_safe (JStr s) = True"
| "json_safe (JArr xs) = list_all id (map json_safe xs)"
| "json_safe (JObj ps) = list_all snd (map (map_prod id json_safe) ps)"

definition json_safe_props :: "props \<Rightarrow> bool" where
  "json_safe_props ps = list_all snd (map (map_prod id json_safe) ps)"

text \<open>\<^verbatim>\<open>v == null\<close>: the two values JavaScript has for "nothing".\<close>

definition nullish :: "jsval \<Rightarrow> bool" where
  "nullish v = (v = JNull \<or> v = JUndefined)"


section \<open>Memento, Originator and Caretaker (19-memento.js)\<close>

text \<open>
  A \<^verbatim>\<open>Date\<close> is its time value in milliseconds.  \<^verbatim>\<open>new Date()\<close> reads the clock:
  every operation that creates a snapshot takes the clock's reading as an argument.
\<close>

type_synonym date = int

text \<open>
  \<^verbatim>\<open>class Memento\<close>: the constructor stores \<^verbatim>\<open>JSON.parse(JSON.stringify(state))\<close> and
  the creation date; \<^verbatim>\<open>getState()\<close> hands out a second round trip of the stored state.
  The state is a plain object: both callers of the constructor pass one.
\<close>

record memento =
  m_state :: props
  m_createdAt :: date

definition Memento_new :: "props \<Rightarrow> date \<Rightarrow> memento" where
  "Memento_new st now = \<lparr>m_state = json_props st, m_createdAt = now\<rparr>"

definition Memento_getState :: "memento \<Rightarrow> props" where
  "Memento_getState m = json_props (m_state m)"

definition Memento_getCreatedAt :: "memento \<Rightarrow> date" where
  "Memento_getCreatedAt m = m_createdAt m"

text \<open>
  Property order.  A key is an array index when it is the decimal numeral, without
  leading zeros, of an integer below \<open>2^32 - 1\<close>.  A plain object lists its
  array-index keys first, in ascending numeric order, and then its other keys in the
  order in which they were created.
\<close>

definition is_digit :: "char \<Rightarrow> bool" where
  "is_digit c = (48 \<le> (of_char c :: nat) \<and> (of_char c :: nat) \<le> 57)"

definition array_index :: "string \<Rightarrow> nat option" where
  "array_index k =
     (case k of
        [] \<Rightarrow> None
      | c # cs \<Rightarrow>
          if \<not> list_all is_digit k \<or> (c = CHR ''0'' \<and> cs \<noteq> []) then None
          else
            let n = fold (\<lambda>d acc. 10 * acc + ((of_char d :: nat) - 48)) k 0
            in if n < 4294967295 then Some n else None)"

text \<open>
  Assigning a property of a plain object: the value of an existing key is replaced in
  place; a new array-index key goes before the first key that is no array index or is
  a greater one; any other new key goes to the end.  Object spread
  \<^verbatim>\<open>{ ...a, ...b }\<close> starts from an empty object and assigns the properties of each
  source in turn, in their order.
\<close>

fun replace_prop :: "string \<Rightarrow> jsval \<Rightarrow> props \<Rightarrow> props" where
  "replace_prop k v [] = []"
| "replace_prop k v (p # ps) = (if fst p = k then (k, v) # ps else p # replace_prop k v ps)"

fun insert_index :: "nat \<Rightarrow> string \<times> jsval \<Rightarrow> props \<Rightarrow> props" where
  "insert_index n kv [] = [kv]"
| "insert_index n kv (p # ps) =
     (case array_index (fst p) of
        None \<Rightarrow> kv # p # ps
      | Some m \<Rightarrow> if n < m then kv # p # ps else p # insert_index n kv ps)"

definition set_prop :: "string \<Rightarrow> jsval \<Rightarrow> props \<Rightarrow> props" where
  "set_prop k v ps =
     (if k \<in> set (map fst ps) then replace_prop k v ps
      else case array_index k of
             None \<Rightarrow> ps @ [(k, v)]
           | Some n \<Rightarrow> insert_index n (k, v) ps)"

definition object_spread :: "props list \<Rightarrow> props" where
  "object_spread sources = fold (\<lambda>p acc. set_prop (fst p) (snd p) acc) (concat sources) []"

text \<open>
  \<^verbatim>\<open>class Originator\<close>.  Its \<^verbatim>\<open>_state\<close> is always a plain object: the constructor and
  \<^verbatim>\<open>setState\<close> build it by object spread, \<^verbatim>\<open>restore\<close> takes it from a snapshot.
\<close>

record originator =
  orig_state :: props

definition Originator_new :: "props \<Rightarrow> originator" where
  "Originator_new initialState = \<lparr>orig_state = object_spread [initialState]\<rparr>"

definition Originator_setState :: "props \<Rightarrow> originator \<Rightarrow> originator" where
  "Originator_setState partial ori =
     ori\<lparr>orig_state := object_spread [orig_state ori, partial]\<rparr>"

definition Originator_getState :: "originator \<Rightarrow> props" where
  "Originator_getState ori = object_spread [orig_state ori]"

definition createMemento :: "date \<Rightarrow> originator \<Rightarrow> memento" where
  "createMemento now ori = Memento_new (orig_state ori) now"

definition restore :: "memento \<Rightarrow> originator \<Rightarrow> originator" where
  "restore m ori = ori\<lparr>orig_state := Memento_getState m\<rparr>"

text \<open>
  \<^verbatim>\<open>class Caretaker\<close>.  The two stacks are arrays used with \<^verbatim>\<open>push\<close> and \<^verbatim>\<open>pop\<close>: the
  top of a stack is the last element.  The caretaker refers to its originator; the model
  holds the originator inside the caretaker, so code outside the caretaker that changes
  the originator updates the field \<open>originator\<close>.  \<^verbatim>\<open>save()\<close> has no \<^verbatim>\<open>return\<close>, so the call
  evaluates to \<^verbatim>\<open>undefined\<close>; \<^verbatim>\<open>undo()\<close> and \<^verbatim>\<open>redo()\<close> return a boolean.
\<close>

record caretaker =
  originator :: originator
  undoStack :: "memento list"
  redoStack :: "memento list"

definition Caretaker_new :: "originator \<Rightarrow> caretaker" where
  "Caretaker_new ori = \<lparr>originator = ori, undoStack = [], redoStack = []\<rparr>"

definition save :: "date \<Rightarrow> caretaker \<Rightarrow> jsval \<times> caretaker" where
  "save now c =
     (let c1 = c\<lparr>undoStack := undoStack c @ [createMemento now (originator c)]\<rparr>;
          c2 = c1\<lparr>redoStack := []\<rparr>
      in (JUndefined, c2))"

definition undo :: "date \<Rightarrow> caretaker \<Rightarrow> jsval \<times> caretaker" where
  "undo now c =
     (if length (undoStack c) = 0 then (JBool False, c)
      else
        let m = last (undoStack c);
            c1 = c\<lparr>undoStack := butlast (undoStack c)\<rparr>;
            c2 = c1\<lparr>redoStack := redoStack c1 @ [createMemento now (originator c1)]\<rparr>;
            c3 = c2\<lparr>originator := restore m (originator c2)\<rparr>
        in (JBool True, c3))"

definition redo :: "date \<Rightarrow> caretaker \<Rightarrow> jsval \<times> caretaker" where
  "redo now c =
     (if length (redoStack c) = 0 then (JBool False, c)
      else
        let m = last (redoStack c);
            c1 = c\<lparr>redoStack := butlast (redoStack c)\<rparr>;
            c2 = c1\<lparr>undoStack := undoStack c1 @ [createMemento now (originator c1)]\<rparr>;
            c3 = c2\<lparr>originator := restore m (originator c2)\<rparr>
        in (JBool True, c3))"

definition stats :: "caretaker \<Rightarrow> nat \<times> nat" where
  "stats c = (length (undoStack c), length (redoStack c))"

text \<open>
  Callers of the caretaker: a run of \<^verbatim>\<open>save()\<close> calls and \<^verbatim>\<open>setState\<close> calls on the
  originator, and runs of \<^verbatim>\<open>undo()\<close> and of \<^verbatim>\<open>redo()\<close> calls, one per clock reading.
\<close>

datatype editing = Save date | SetState props

fun edit :: "editing \<Rightarrow> caretaker \<Rightarrow> caretaker" where
  "edit (Save now) c = snd (save now c)"
| "edit (SetState partial) c = c\<lparr>originator := Originator_setState partial (originator c)\<rparr>"

definition edits :: "editing list \<Rightarrow> caretaker \<Rightarrow> caretaker" where
  "edits es c = fold edit es c"

fun is_Save :: "editing \<Rightarrow> bool" where
  "is_Save (Save now) = True"
| "is_Save (SetState partial) = False"

text \<open>The owner's state at each \<^verbatim>\<open>save()\<close> of such a run, in call order.\<close>

fun saved_states :: "editing list \<Rightarrow> caretaker \<Rightarrow> props list" where
  "saved_states [] c = []"
| "saved_states (e # es) c =
     (if is_Save e then [orig_state (originator c)] else []) @ saved_states es (edit e c)"

definition undos :: "date list \<Rightarrow> caretaker \<Rightarrow> caretaker" where
  "undos ts c = fold (\<lambda>now c'. snd (undo now c')) ts c"

definition redos :: "date list \<Rightarrow> caretaker \<Rightarrow> caretaker" where
  "redos ts c = fold (\<lambda>now c'. snd (redo now c')) ts c"

text \<open>The values the calls of such a run return, in call order.\<close>

fun undo_results :: "date list \<Rightarrow> caretaker \<Rightarrow> jsval list" where
  "undo_results [] c = []"
| "undo_results (now # ts) c = fst (undo now c) # undo_results ts (snd (undo now c))"

fun redo_results :: "date list \<Rightarrow> caretaker \<Rightarrow> jsval list" where
  "redo_results [] c = []"
| "redo_results (now # ts) c = fst (redo now c) # redo_results ts (snd (redo now c))"


section \<open>The State pattern: Context and Order (18-mediator.js)\<close>

subsection \<open>Arrays, console and errors\<close>

text \<open>
  The transition histories are arrays that their owner hands out copies of, so arrays
  are objects in a store: an address is an index into the list of all arrays, and a new
  array takes the next index.  A field that holds an address outside the store holds no
  array: \<^verbatim>\<open>push\<close> and spread on it throw a \<^verbatim>\<open>TypeError\<close>.  A transition record
  \<^verbatim>\<open>{from, to, timestamp}\<close> is never assigned to by this code and is held by value.
\<close>

type_synonym addr = nat

record transition =
  tr_from :: string
  tr_to :: string
  tr_timestamp :: string

type_synonym arrays = "transition list list"

definition array_get :: "addr \<Rightarrow> arrays \<Rightarrow> transition list option" where
  "array_get a h = (if a < length h then Some (h ! a) else None)"

definition array_push :: "addr \<Rightarrow> transition \<Rightarrow> arrays \<Rightarrow> arrays option" where
  "array_push a x h = (if a < length h then Some (h[a := h ! a @ [x]]) else None)"

text \<open>\<^verbatim>\<open>[...arr]\<close>: a new array with the elements of the array at \<open>a\<close>.\<close>

definition array_spread :: "addr \<Rightarrow> arrays \<Rightarrow> (addr \<times> arrays) option" where
  "array_spread a h = (if a < length h then Some (length h, h @ [h ! a]) else None)"

text \<open>
  The exceptions of this code: the \<^verbatim>\<open>Error\<close> of an abstract method that was not
  overridden (with the method's name), and the \<^verbatim>\<open>TypeError\<close> of the runtime.
\<close>

datatype error = NotOverridden string | TypeError

text \<open>
  A line of console output.  The source prints Russian text; a constructor stands for
  each message template and carries what the template interpolates: the printing
  state's name (the tag in square brackets), the order's id, the two state names of a
  transition, the outcome of a check.
\<close>

datatype message =
    Processing string string
  | ItemsAvailable string
  | ItemsUnavailable string
  | Cancelling string string
  | ReturnImpossible string
  | PaymentConfirmed string
  | PaymentNotConfirmed string
  | PreparedForShipping string
  | PreparationError string
  | CancellingWithRefund string string
  | OrderDelivered string
  | InTransit string
  | CancelImpossible string
  | AlreadyDelivered string string
  | Returning string string
  | ProcessingReturn string string
  | FundsReturned string
  | AlreadyReturned string
  | ProcessingImpossible string string
  | AlreadyCancelled string string
  | StateChanged string string string
  | AvailabilityCheck bool
  | PaymentCheck bool
  | ShippingPreparation bool
  | DeliveryCheck bool
  | Refunded string
  | ContextStateChanged string string

record world =
  arrays :: arrays
  console :: "message list"

definition console_log :: "message \<Rightarrow> world \<Rightarrow> world" where
  "console_log m w = w\<lparr>console := console w @ [m]\<rparr>"

subsection \<open>Context\<close>

text \<open>
  \<^verbatim>\<open>class State\<close> and its three subclasses; \<^verbatim>\<open>getName()\<close> is the constructor's name.
  \<^verbatim>\<open>class Context\<close> starts with \<^verbatim>\<open>state = null\<close> and an empty history.  The timestamp of a
  transition is the clock's reading as an ISO string, an argument of \<^verbatim>\<open>setState\<close> here.
\<close>

datatype State = State | ConcreteStateA | ConcreteStateB | ConcreteStateC

fun State_getName :: "State \<Rightarrow> string" where
  "State_getName State = ''State''"
| "State_getName ConcreteStateA = ''ConcreteStateA''"
| "State_getName ConcreteStateB = ''ConcreteStateB''"
| "State_getName ConcreteStateC = ''ConcreteStateC''"

record Context =
  ctx_state :: "State option"
  ctx_stateHistory :: addr

definition Context_new :: "world \<Rightarrow> Context \<times> world" where
  "Context_new w =
     (\<lparr>ctx_state = None, ctx_stateHistory = length (arrays w)\<rparr>, w\<lparr>arrays := arrays w @ [[]]\<rparr>)"

definition Context_setState ::
  "string \<Rightarrow> State \<Rightarrow> Context \<Rightarrow> world \<Rightarrow> error + (jsval \<times> Context \<times> world)" where
  "Context_setState now st c w =
     (let oldState = (case ctx_state c of Some s \<Rightarrow> State_getName s | None \<Rightarrow> ''None'');
          c1 = c\<lparr>ctx_state := Some st\<rparr>
      in case array_push (ctx_stateHistory c1)
              \<lparr>tr_from = oldState, tr_to = State_getName st, tr_timestamp = now\<rparr> (arrays w) of
           None \<Rightarrow> Inl TypeError
         | Some h \<Rightarrow>
             Inr (JUndefined, c1,
               console_log (ContextStateChanged oldState (State_getName st)) (w\<lparr>arrays := h\<rparr>)))"

definition Context_getCurrentState :: "Context \<Rightarrow> State option" where
  "Context_getCurrentState c = ctx_state c"

definition Context_getStateHistory ::
  "Context \<Rightarrow> world \<Rightarrow> error + (addr \<times> Context \<times> world)" where
  "Context_getStateHistory c w =
     (case array_spread (ctx_stateHistory c) (arrays w) of
        None \<Rightarrow> Inl TypeError
      | Some (a, h) \<Rightarrow> Inr (a, c, w\<lparr>arrays := h\<rparr>))"

definition Context_getTransitionCount :: "Context \<Rightarrow> world \<Rightarrow> error + nat" where
  "Context_getTransitionCount c w =
     (case array_get (ctx_stateHistory c) (arrays w) of
        None \<Rightarrow> Inl TypeError
      | Some xs \<Rightarrow> Inr (length xs))"


subsection \<open>Order and its states\<close>

text \<open>
  \<^verbatim>\<open>class OrderState\<close> and its seven subclasses.  The base class can be instantiated:
  its \<^verbatim>\<open>process\<close>, \<^verbatim>\<open>cancel\<close> and \<^verbatim>\<open>return\<close> throw.  The state objects have no fields.
\<close>

datatype OrderState =
    OrderState
  | CreatedState
  | ConfirmedState
  | PaidState
  | ShippedState
  | DeliveredState
  | ReturnedState
  | CancelledState

fun getName :: "OrderState \<Rightarrow> string" where
  "getName OrderState = ''OrderState''"
| "getName CreatedState = ''CreatedState''"
| "getName ConfirmedState = ''ConfirmedState''"
| "getName PaidState = ''PaidState''"
| "getName ShippedState = ''ShippedState''"
| "getName DeliveredState = ''DeliveredState''"
| "getName ReturnedState = ''ReturnedState''"
| "getName CancelledState = ''CancelledState''"

record order =
  order_id :: string
  items :: "string list"
  state :: OrderState
  paymentStatus :: string
  shippingStatus :: string
  deliveryStatus :: string
  stateHistory :: addr
  createdAt :: date

definition Order_new :: "string \<Rightarrow> string list \<Rightarrow> date \<Rightarrow> world \<Rightarrow> order \<times> world" where
  "Order_new ident its now w =
     (\<lparr>order_id = ident, items = its, state = CreatedState, paymentStatus = ''pending'',
       shippingStatus = ''not_shipped'', deliveryStatus = ''not_delivered'',
       stateHistory = length (arrays w), createdAt = now\<rparr>,
      w\<lparr>arrays := arrays w @ [[]]\<rparr>)"

text \<open>
  \<^verbatim>\<open>Order.setState\<close>: assigns the state, pushes the transition record, prints.  The
  method has no \<^verbatim>\<open>return\<close>: the call evaluates to \<^verbatim>\<open>undefined\<close>, and so does every
  method of the order below that has none.
\<close>

definition Order_setState ::
  "string \<Rightarrow> OrderState \<Rightarrow> order \<Rightarrow> world \<Rightarrow> error + (jsval \<times> order \<times> world)" where
  "Order_setState now newState ord w =
     (let oldState = getName (state ord);
          o1 = ord\<lparr>state := newState\<rparr>
      in case array_push (stateHistory o1)
              \<lparr>tr_from = oldState, tr_to = getName newState, tr_timestamp = now\<rparr> (arrays w) of
           None \<Rightarrow> Inl TypeError
         | Some h \<Rightarrow>
             Inr (JUndefined, o1,
               console_log (StateChanged (order_id o1) oldState (getName newState)) (w\<lparr>arrays := h\<rparr>)))"

text \<open>
  The four checks stand in for external systems: each draws \<^verbatim>\<open>Math.random()\<close> and
  compares it with a threshold.  The draw \<open>r\<close> is an argument: a double, read as the
  real number it is.  The thresholds are the doubles that the literals \<^verbatim>\<open>0.2\<close>,
  \<^verbatim>\<open>0.3\<close>, \<^verbatim>\<open>0.1\<close> and \<^verbatim>\<open>0.4\<close> denote, so that the comparison of reals is the
  comparison of doubles.
\<close>

definition double_0_2 :: real where
  "double_0_2 = 3602879701896397 / 18014398509481984"

definition double_0_3 :: real where
  "double_0_3 = 5404319552844595 / 18014398509481984"

definition double_0_1 :: real where
  "double_0_1 = 3602879701896397 / 36028797018963968"

definition double_0_4 :: real where
  "double_0_4 = 3602879701896397 / 9007199254740992"

definition checkAvailability :: "real \<Rightarrow> order \<Rightarrow> world \<Rightarrow> bool \<times> order \<times> world" where
  "checkAvailability r ord w =
     (let available = (r > double_0_2) in (available, ord, console_log (AvailabilityCheck available) w))"

definition checkPayment :: "real \<Rightarrow> order \<Rightarrow> world \<Rightarrow> bool \<times> order \<times> world" where
  "checkPayment r ord w =
     (let paid = (r > double_0_3);
          o1 = (if paid then ord\<lparr>paymentStatus := ''paid''\<rparr> else ord)
      in (paid, o1, console_log (PaymentCheck paid) w))"

definition prepareForShipping :: "real \<Rightarrow> order \<Rightarrow> world \<Rightarrow> bool \<times> order \<times> world" where
  "prepareForShipping r ord w =
     (let prepared = (r > double_0_1);
          o1 = (if prepared then ord\<lparr>shippingStatus := ''ready''\<rparr> else ord)
      in (prepared, o1, console_log (ShippingPreparation prepared) w))"

definition checkDelivery :: "real \<Rightarrow> order \<Rightarrow> world \<Rightarrow> bool \<times> order \<times> world" where
  "checkDelivery r ord w =
     (let delivered = (r > double_0_4);
          o1 = (if delivered then ord\<lparr>deliveryStatus := ''delivered''\<rparr> else ord)
      in (delivered, o1, console_log (DeliveryCheck delivered) w))"

definition refundPayment :: "order \<Rightarrow> world \<Rightarrow> jsval \<times> order \<times> world" where
  "refundPayment ord w =
     (JUndefined, ord\<lparr>paymentStatus := ''refunded''\<rparr>, console_log (Refunded (order_id ord)) w)"

text \<open>The methods of the state classes, by the class of the receiver.\<close>

fun OrderState_process ::
  "OrderState \<Rightarrow> real \<Rightarrow> string \<Rightarrow> order \<Rightarrow> world \<Rightarrow> error + (jsval \<times> order \<times> world)" where
  "OrderState_process OrderState r now ord w = Inl (NotOverridden ''process'')"
| "OrderState_process CreatedState r now ord w =
     (let w1 = console_log (Processing (getName CreatedState) (order_id ord)) w;
          (available, o2, w2) = checkAvailability r ord w1
      in if available
         then Order_setState now ConfirmedState o2 (console_log (ItemsAvailable (getName CreatedState)) w2)
         else Order_setState now CancelledState o2 (console_log (ItemsUnavailable (getName CreatedState)) w2))"
| "OrderState_process ConfirmedState r now ord w =
     (let w1 = console_log (Processing (getName ConfirmedState) (order_id ord)) w;
          (paid, o2, w2) = checkPayment r ord w1
      in if paid
         then Order_setState now PaidState o2 (console_log (PaymentConfirmed (getName ConfirmedState)) w2)
         else Inr (JUndefined, o2, console_log (PaymentNotConfirmed (getName ConfirmedState)) w2))"
| "OrderState_process PaidState r now ord w =
     (let w1 = console_log (Processing (getName PaidState) (order_id ord)) w;
          (prepared, o2, w2) = prepareForShipping r ord w1
      in if prepared
         then Order_setState now ShippedState o2 (console_log (PreparedForShipping (getName PaidState)) w2)
         else Inr (JUndefined, o2, console_log (PreparationError (getName PaidState)) w2))"
| "OrderState_process ShippedState r now ord w =
     (let w1 = console_log (Processing (getName ShippedState) (order_id ord)) w;
          (delivered, o2, w2) = checkDelivery r ord w1
      in if delivered
         then Order_setState now DeliveredState o2 (console_log (OrderDelivered (getName ShippedState)) w2)
         else Inr (JUndefined, o2, console_log (InTransit (getName ShippedState)) w2))"
| "OrderState_process DeliveredState r now ord w =
     Inr (JUndefined, ord, console_log (AlreadyDelivered (getName DeliveredState) (order_id ord)) w)"
| "OrderState_process ReturnedState r now ord w =
     (let w1 = console_log (ProcessingReturn (getName ReturnedState) (order_id ord)) w;
          (u, o2, w2) = refundPayment ord w1
      in Inr (JUndefined, o2, console_log (FundsReturned (getName ReturnedState)) w2))"
| "OrderState_process CancelledState r now ord w =
     Inr (JUndefined, ord, console_log (ProcessingImpossible (getName CancelledState) (order_id ord)) w)"

fun OrderState_cancel ::
  "OrderState \<Rightarrow> string \<Rightarrow> order \<Rightarrow> world \<Rightarrow> error + (jsval \<times> order \<times> world)" where
  "OrderState_cancel OrderState now ord w = Inl (NotOverridden ''cancel'')"
| "OrderState_cancel CreatedState now ord w =
     Order_setState now CancelledState ord
       (console_log (Cancelling (getName CreatedState) (order_id ord)) w)"
| "OrderState_cancel ConfirmedState now ord w =
     Order_setState now CancelledState ord
       (console_log (Cancelling (getName ConfirmedState) (order_id ord)) w)"
| "OrderState_cancel PaidState now ord w =
     (let w1 = console_log (CancellingWithRefund (getName PaidState) (order_id ord)) w;
          (u, o2, w2) = refundPayment ord w1
      in Order_setState now CancelledState o2 w2)"
| "OrderState_cancel ShippedState now ord w =
     Inr (JUndefined, ord, console_log (CancelImpossible (getName ShippedState)) w)"
| "OrderState_cancel DeliveredState now ord w =
     Inr (JUndefined, ord, console_log (CancelImpossible (getName DeliveredState)) w)"
| "OrderState_cancel ReturnedState now ord w =
     Inr (JUndefined, ord, console_log (CancelImpossible (getName ReturnedState)) w)"
| "OrderState_cancel CancelledState now ord w =
     Inr (JUndefined, ord, console_log (AlreadyCancelled (getName CancelledState) (order_id ord)) w)"

fun OrderState_return ::
  "OrderState \<Rightarrow> string \<Rightarrow> order \<Rightarrow> world \<Rightarrow> error + (jsval \<times> order \<times> world)" where
  "OrderState_return OrderState now ord w = Inl (NotOverridden ''return'')"
| "OrderState_return CreatedState now ord w =
     Inr (JUndefined, ord, console_log (ReturnImpossible (getName CreatedState)) w)"
| "OrderState_return ConfirmedState now ord w =
     Inr (JUndefined, ord, console_log (ReturnImpossible (getName ConfirmedState)) w)"
| "OrderState_return PaidState now ord w =
     Inr (JUndefined, ord, console_log (ReturnImpossible (getName PaidState)) w)"
| "OrderState_return ShippedState now ord w =
     Inr (JUndefined, ord, console_log (ReturnImpossible (getName ShippedState)) w)"
| "OrderState_return DeliveredState now ord w =
     Order_setState now ReturnedState ord
       (console_log (Returning (getName DeliveredState) (order_id ord)) w)"
| "OrderState_return ReturnedState now ord w =
     Inr (JUndefined, ord, console_log (AlreadyReturned (getName ReturnedState)) w)"
| "OrderState_return CancelledState now ord w =
     Inr (JUndefined, ord, console_log (ReturnImpossible (getName CancelledState)) w)"

text \<open>The order delegates to its current state.\<close>

definition Order_process ::
  "real \<Rightarrow> string \<Rightarrow> order \<Rightarrow> world \<Rightarrow> error + (jsval \<times> order \<times> world)" where
  "Order_process r now ord w = OrderState_process (state ord) r now ord w"

definition Order_cancel ::
  "string \<Rightarrow> order \<Rightarrow> world \<Rightarrow> error + (jsval \<times> order \<times> world)" where
  "Order_cancel now ord w = OrderState_cancel (state ord) now ord w"

definition Order_return ::
  "string \<Rightarrow> order \<Rightarrow> world \<Rightarrow> error + (jsval \<times> order \<times> world)" where
  "Order_return now ord w = OrderState_return (state ord) now ord w"

definition Order_getCurrentState :: "order \<Rightarrow> OrderState" where
  "Order_getCurrentState ord = state ord"

definition Order_getStateHistory :: "order \<Rightarrow> world \<Rightarrow> error + (addr \<times> order \<times> world)" where
  "Order_getStateHistory ord w =
     (case array_spread (stateHistory ord) (arrays w) of
        None \<Rightarrow> Inl TypeError
      | Some (a, h) \<Rightarrow> Inr (a, ord, w\<lparr>arrays := h\<rparr>))"


subsection \<open>Callers of an order\<close>

text \<open>
  A call of one of the three operations, with what the environment supplies to it: the
  random draw (for \<^verbatim>\<open>process()\<close>) and the clock's reading.  A run of calls stops at the
  first exception.
\<close>

datatype call = Process real string | Cancel string | Return string

fun call_now :: "call \<Rightarrow> string" where
  "call_now (Process r now) = now"
| "call_now (Cancel now) = now"
| "call_now (Return now) = now"

fun Order_call :: "call \<Rightarrow> order \<Rightarrow> world \<Rightarrow> error + (jsval \<times> order \<times> world)" where
  "Order_call (Process r now) ord w = Order_process r now ord w"
| "Order_call (Cancel now) ord w = Order_cancel now ord w"
| "Order_call (Return now) ord w = Order_return now ord w"

fun Order_calls :: "call list \<Rightarrow> order \<Rightarrow> world \<Rightarrow> error + (order \<times> world)" where
  "Order_calls [] ord w = Inr (ord, w)"
| "Order_calls (c # cs) ord w =
     (case Order_call c ord w of
        Inl e \<Rightarrow> Inl e
      | Inr (v, o', w') \<Rightarrow> Order_calls cs o' w')"

text \<open>The contents of the order's history array (nothing when the field holds no array).\<close>

definition history :: "order \<Rightarrow> world \<Rightarrow> transition list" where
  "history ord w = (case array_get (stateHistory ord) (arrays w) of Some xs \<Rightarrow> xs | None \<Rightarrow> [])"

text \<open>
  The accepted transitions of a run: for each call after which the order is in another
  state than before it, the two state names and the call's clock reading.
\<close>

fun transitions :: "call list \<Rightarrow> order \<Rightarrow> world \<Rightarrow> transition list" where
  "transitions [] ord w = []"
| "transitions (c # cs) ord w =
     (case Order_call c ord w of
        Inl e \<Rightarrow> []
      | Inr (v, o', w') \<Rightarrow>
          (if state o' = state ord then []
           else [\<lparr>tr_from = getName (state ord), tr_to = getName (state o'),
                  tr_timestamp = call_now c\<rparr>]) @ transitions cs o' w')"

text \<open>
  The operations that a state rejects: its method only prints a message.
\<close>

fun rejects :: "OrderState \<Rightarrow> call \<Rightarrow> bool" where
  "rejects DeliveredState (Process r now) = True"
| "rejects CancelledState (Process r now) = True"
| "rejects ShippedState (Cancel now) = True"
| "rejects DeliveredState (Cancel now) = True"
| "rejects ReturnedState (Cancel now) = True"
| "rejects CancelledState (Cancel now) = True"
| "rejects CreatedState (Return now) = True"
| "rejects ConfirmedState (Return now) = True"
| "rejects PaidState (Return now) = True"
| "rejects ShippedState (Return now) = True"
| "rejects ReturnedState (Return now) = True"
| "rejects CancelledState (Return now) = True"
| "rejects st c = False"

text \<open>
  How often \<^verbatim>\<open>refundPayment()\<close> has run: it prints its line on every call, and nothing
  else prints that line.
\<close>

fun is_Refunded :: "message \<Rightarrow> bool" where
  "is_Refunded (Refunded ident) = True"
| "is_Refunded m = False"

definition refunds :: "world \<Rightarrow> nat" where
  "refunds w = length (filter is_Refunded (console w))"


section \<open>Properties of the snapshot store\<close>

subsection \<open>The JSON round trip\<close>

lemma json_copy_undefined: "json_copy v = JUndefined \<longleftrightarrow> v = JUndefined"
  by (cases v) (auto split: jsnum.splits)

lemma props_copy_idem:
  "\<forall>v \<in> snd ` set ps. json_copy (json_copy v) = json_copy v \<Longrightarrow>
   filter (\<lambda>p. snd p \<noteq> JUndefined) (map (map_prod id json_copy)
     (filter (\<lambda>p. snd p \<noteq> JUndefined) (map (map_prod id json_copy) ps)))
   = filter (\<lambda>p. snd p \<noteq> JUndefined) (map (map_prod id json_copy) ps)"
  by (induction ps) (auto simp: json_copy_undefined)

lemma elems_copy_idem:
  "\<forall>v \<in> set xs. json_copy (json_copy v) = json_copy v \<Longrightarrow>
   map (\<lambda>v. if v = JUndefined then JNull else v) (map json_copy
     (map (\<lambda>v. if v = JUndefined then JNull else v) (map json_copy xs)))
   = map (\<lambda>v. if v = JUndefined then JNull else v) (map json_copy xs)"
  by (induction xs) (auto simp: json_copy_undefined)

lemma json_copy_idem: "json_copy (json_copy v) = json_copy v"
proof (induction v)
  case (JNum n)
  then show ?case by (cases n) simp_all
next
  case (JArr xs)
  then have "\<forall>v \<in> set xs. json_copy (json_copy v) = json_copy v"
    by simp
  then show ?case
    using elems_copy_idem [of xs] by simp
next
  case (JObj ps)
  then have "\<forall>v \<in> snd ` set ps. json_copy (json_copy v) = json_copy v"
    by fastforce
  then show ?case
    using props_copy_idem [of ps] by simp
qed simp_all

lemma json_props_idem: "json_props (json_props ps) = json_props ps"
  unfolding json_props_def by (rule props_copy_idem) (simp add: json_copy_idem)

lemma elems_copy_safe:
  "\<forall>v \<in> set xs. json_safe v \<longrightarrow> json_copy v = v \<Longrightarrow>
   list_all id (map json_safe xs) \<Longrightarrow>
   map (\<lambda>v. if v = JUndefined then JNull else v) (map json_copy xs) = xs"
  by (induction xs) auto

lemma props_copy_safe:
  "\<forall>v \<in> snd ` set ps. json_safe v \<longrightarrow> json_copy v = v \<Longrightarrow>
   list_all snd (map (map_prod id json_safe) ps) \<Longrightarrow>
   filter (\<lambda>p. snd p \<noteq> JUndefined) (map (map_prod id json_copy) ps) = ps"
  by (induction ps) auto

lemma json_safe_copy: "json_safe v \<Longrightarrow> json_copy v = v"
proof (induction v)
  case (JNum n)
  then show ?case by (cases n) simp_all
next
  case (JArr xs)
  then have "\<forall>v \<in> set xs. json_safe v \<longrightarrow> json_copy v = v"
    by simp
  then show ?case
    using elems_copy_safe [of xs] JArr.prems by simp
next
  case (JObj ps)
  then have "\<forall>v \<in> snd ` set ps. json_safe v \<longrightarrow> json_copy v = v"
    by fastforce
  then show ?case
    using props_copy_safe [of ps] JObj.prems by simp
qed simp_all

lemma json_safe_props_copy: "json_safe_props ps \<Longrightarrow> json_props ps = ps"
  using json_safe_copy [of "JObj ps"] by (simp add: json_safe_props_def json_props_def)

subsection \<open>Single steps and runs of undo and redo\<close>

lemma getState_new: "Memento_getState (Memento_new st now) = json_props st"
  by (simp add: Memento_getState_def Memento_new_def json_props_idem)

lemma undo_empty: "undoStack c = [] \<Longrightarrow> undo now c = (JBool False, c)"
  by (simp add: undo_def)

lemma redo_empty: "redoStack c = [] \<Longrightarrow> redo now c = (JBool False, c)"
  by (simp add: redo_def)

lemma undo_step:
  "undoStack c \<noteq> [] \<Longrightarrow>
   undo now c = (JBool True,
     c\<lparr>originator := (originator c)\<lparr>orig_state := Memento_getState (last (undoStack c))\<rparr>,
       undoStack := butlast (undoStack c),
       redoStack := redoStack c @ [Memento_new (orig_state (originator c)) now]\<rparr>)"
  by (simp add: undo_def Let_def restore_def createMemento_def)

lemma redo_step:
  "redoStack c \<noteq> [] \<Longrightarrow>
   redo now c = (JBool True,
     c\<lparr>originator := (originator c)\<lparr>orig_state := Memento_getState (last (redoStack c))\<rparr>,
       redoStack := butlast (redoStack c),
       undoStack := undoStack c @ [Memento_new (orig_state (originator c)) now]\<rparr>)"
  by (simp add: redo_def Let_def restore_def createMemento_def)

lemma undos_Nil: "undos [] c = c"
  by (simp add: undos_def)

lemma undos_Cons: "undos (t # ts) c = undos ts (snd (undo t c))"
  by (simp add: undos_def)

lemma undos_append: "undos (ts @ us) c = undos us (undos ts c)"
  by (simp add: undos_def)

lemma redos_Nil: "redos [] c = c"
  by (simp add: redos_def)

lemma redos_snoc: "redos (ts @ [t]) c = snd (redo t (redos ts c))"
  by (simp add: redos_def)

lemma redos_append: "redos (ts @ us) c = redos us (redos ts c)"
  by (simp add: redos_def)

lemma undos_length:
  "length ts \<le> length (undoStack c) \<Longrightarrow>
   length (undoStack (undos ts c)) = length (undoStack c) - length ts \<and>
   length (redoStack (undos ts c)) = length (redoStack c) + length ts"
proof (induction ts arbitrary: c)
  case Nil
  show ?case by (simp add: undos_Nil)
next
  case (Cons t ts)
  then have ne: "undoStack c \<noteq> []" by auto
  show ?case
    using Cons.IH [of "snd (undo t c)"] Cons.prems
    by (simp add: undos_Cons undo_step [OF ne])
qed

lemma undos_state:
  "ts \<noteq> [] \<Longrightarrow> length ts \<le> length (undoStack c) \<Longrightarrow>
   orig_state (originator (undos ts c)) =
     Memento_getState (undoStack c ! (length (undoStack c) - length ts))"
proof (induction ts arbitrary: c)
  case Nil
  then show ?case by simp
next
  case (Cons t ts)
  then have ne: "undoStack c \<noteq> []" by auto
  show ?case
  proof (cases "ts = []")
    case True
    then show ?thesis
      using ne by (simp add: undos_Cons undos_Nil undo_step [OF ne] last_conv_nth)
  next
    case False
    then have "length (undoStack c) - Suc (length ts) < length (butlast (undoStack c))"
      using Cons.prems by (cases ts) auto
    then have "butlast (undoStack c) ! (length (undoStack c) - Suc (length ts)) =
        undoStack c ! (length (undoStack c) - Suc (length ts))"
      by (rule nth_butlast)
    then show ?thesis
      using Cons.IH [of "snd (undo t c)"] Cons.prems ne False
      by (simp add: undos_Cons undo_step [OF ne])
  qed
qed

lemma undos_results:
  "length ts \<le> length (undoStack c) \<Longrightarrow> undo_results ts c = replicate (length ts) (JBool True)"
proof (induction ts arbitrary: c)
  case Nil
  show ?case by simp
next
  case (Cons t ts)
  then have ne: "undoStack c \<noteq> []" by auto
  show ?case
    using Cons.IH [of "snd (undo t c)"] Cons.prems
    by (simp add: undo_step [OF ne])
qed

lemma redos_results:
  "length ts \<le> length (redoStack c) \<Longrightarrow> redo_results ts c = replicate (length ts) (JBool True)"
proof (induction ts arbitrary: c)
  case Nil
  show ?case by simp
next
  case (Cons t ts)
  then have ne: "redoStack c \<noteq> []" by auto
  show ?case
    using Cons.IH [of "snd (redo t c)"] Cons.prems
    by (simp add: redo_step [OF ne])
qed

lemma undos_redos:
  "length rs = length us \<Longrightarrow> length us \<le> length (undoStack c) \<Longrightarrow>
   redoStack (redos rs (undos us c)) = redoStack c \<and>
   length (undoStack (redos rs (undos us c))) = length (undoStack c) \<and>
   orig_state (originator (redos rs (undos us c))) =
     (if us = [] then orig_state (originator c) else json_props (orig_state (originator c)))"
proof (induction us arbitrary: c rs)
  case Nil
  then show ?case by (simp add: undos_Nil redos_Nil)
next
  case (Cons u us)
  then have ne: "undoStack c \<noteq> []" by auto
  from Cons.prems obtain rs' r where rs: "rs = rs' @ [r]" "length rs' = length us"
    by (cases rs rule: rev_cases) auto
  define c1 where "c1 = snd (undo u c)"
  define c2 where "c2 = redos rs' (undos us c1)"
  have c1: "undoStack c1 = butlast (undoStack c)"
    "redoStack c1 = redoStack c @ [Memento_new (orig_state (originator c)) u]"
    by (simp_all add: c1_def undo_step [OF ne])
  have len: "length us \<le> length (undoStack c1)"
    using Cons.prems c1 by simp
  have ih: "redoStack c2 = redoStack c1" "length (undoStack c2) = length (undoStack c1)"
    using Cons.IH [OF rs(2) len] by (simp_all add: c2_def)
  have ne2: "redoStack c2 \<noteq> []" using ih c1 by simp
  have "redos rs (undos (u # us) c) = snd (redo r c2)"
    by (simp add: rs undos_Cons redos_snoc c1_def c2_def)
  then show ?case
    using ih c1 ne by (simp add: redo_step [OF ne2] getState_new)
qed

lemma save_step:
  "save now c = (JUndefined,
     c\<lparr>undoStack := undoStack c @ [Memento_new (orig_state (originator c)) now],
       redoStack := []\<rparr>)"
  by (simp add: save_def Let_def createMemento_def)

lemma edits_undoStack:
  "length (undoStack (edits es c)) = length (undoStack c) + length (filter is_Save es)"
proof (induction es arbitrary: c)
  case Nil
  show ?case by (simp add: edits_def)
next
  case (Cons e es)
  have "edits (e # es) c = edits es (edit e c)" by (simp add: edits_def)
  moreover have "length (undoStack (edit e c)) = length (undoStack c) + (if is_Save e then 1 else 0)"
    by (cases e) (simp_all add: save_step)
  ultimately show ?case using Cons.IH [of "edit e c"] by simp
qed


lemma edits_Cons: "edits (e # es) c = edits es (edit e c)"
  by (simp add: edits_def)

lemma edits_saved:
  "map m_state (undoStack (edits es c)) =
     map m_state (undoStack c) @ map json_props (saved_states es c)"
proof (induction es arbitrary: c)
  case Nil
  show ?case by (simp add: edits_def)
next
  case (Cons e es)
  have "map m_state (undoStack (edit e c)) =
      map m_state (undoStack c) @ (if is_Save e then [json_props (orig_state (originator c))] else [])"
    by (cases e) (simp_all add: save_step Memento_new_def)
  then show ?case
    using Cons.IH [of "edit e c"] by (simp add: edits_Cons)
qed

lemma saved_states_length: "length (saved_states es c) = length (filter is_Save es)"
  by (induction es arbitrary: c) simp_all

lemma top_saved:
  assumes "0 < k" "k \<le> length (saved_states es c0)"
  shows "Memento_getState (undoStack (edits es c0) ! (length (undoStack (edits es c0)) - k)) =
     json_props (rev (saved_states es c0) ! (k - 1))"
proof -
  let ?U = "undoStack (edits es c0)" and ?S = "saved_states es c0"
  have len: "length ?U = length (undoStack c0) + length ?S"
    using edits_undoStack [of es c0] by (simp add: saved_states_length)
  have i: "length ?U - k < length ?U" using assms len by simp
  have "m_state (?U ! (length ?U - k)) = map m_state ?U ! (length ?U - k)"
    using i by simp
  also have "\<dots> = (map m_state (undoStack c0) @ map json_props ?S) ! (length ?U - k)"
    by (simp only: edits_saved)
  also have "\<dots> = map json_props ?S ! (length ?U - k - length (map m_state (undoStack c0)))"
    using assms len by (intro nth_append_right) simp
  also have "\<dots> = map json_props ?S ! (length ?S - k)"
    using assms len by simp
  also have "\<dots> = json_props (?S ! (length ?S - k))"
    using assms by simp
  finally have "m_state (?U ! (length ?U - k)) = json_props (?S ! (length ?S - k))" .
  moreover have "rev ?S ! (k - 1) = ?S ! (length ?S - k)"
    using assms by (simp add: rev_nth)
  ultimately show ?thesis
    by (simp add: Memento_getState_def json_props_idem)
qed

subsection \<open>Undo and redo are inverse\<close>

text \<open>
  Claim C1, as amended.  The owner's state is built from \<^verbatim>\<open>undefined\<close>, \<^verbatim>\<open>null\<close>,
  booleans, numbers, strings, arrays and plain objects (not from functions, dates,
  symbols, big integers or cyclic structures, on which the JSON copy loses more or
  throws).  Take any caretaker, let any run of \<^verbatim>\<open>save()\<close> calls and state changes of the
  owner act on it, and let \<open>n\<close> be the number of \<^verbatim>\<open>save()\<close> calls.  Then \<open>n\<close> calls of
  \<^verbatim>\<open>undo()\<close> and \<open>n\<close> calls of \<^verbatim>\<open>redo()\<close> all return \<^verbatim>\<open>true\<close>, and afterwards the owner
  holds the JSON round trip of the state it held just before the first \<^verbatim>\<open>undo()\<close> (for
  \<open>n = 0\<close> that state itself): the same state whenever JSON text represents it exactly.
  The steps between are last in, first out.  Each \<^verbatim>\<open>save()\<close> has put the round trip of
  the owner's state of that moment on top of the undo stack; the \<open>k\<close>-th \<^verbatim>\<open>undo()\<close>
  restores the \<open>k\<close>-th snapshot from the top, which holds the state captured by the
  \<open>k\<close>-th last \<^verbatim>\<open>save()\<close>; after \<open>j\<close> calls of \<^verbatim>\<open>redo()\<close> the owner holds the round trip
  of the state it held when the last \<open>j\<close> calls of \<^verbatim>\<open>undo()\<close> were still to come, which
  for \<open>j < n\<close> is the state captured by the \<open>j + 1\<close>-th \<^verbatim>\<open>save()\<close>.
\<close>

theorem undo_redo_inverse:
  assumes "c = edits es c0"
    and "length us = length (filter is_Save es)"
    and "length rs = length us"
  shows "undo_results us c = replicate (length us) (JBool True)
     \<and> redo_results rs (undos us c) = replicate (length rs) (JBool True)
     \<and> orig_state (originator (redos rs (undos us c))) =
         (if us = [] then orig_state (originator c) else json_props (orig_state (originator c)))
     \<and> (json_safe_props (orig_state (originator c)) \<longrightarrow>
         orig_state (originator (redos rs (undos us c))) = orig_state (originator c))
     \<and> (\<forall>k. 0 < k \<and> k \<le> length us \<longrightarrow>
         orig_state (originator (undos (take k us) c)) =
           Memento_getState (rev (undoStack c) ! (k - 1)))
     \<and> (\<forall>j. 0 < j \<and> j \<le> length rs \<longrightarrow>
         orig_state (originator (redos (take j rs) (undos us c))) =
           json_props (orig_state (originator (undos (take (length us - j) us) c))))
     \<and> length (saved_states es c0) = length us
     \<and> map m_state (undoStack c) =
         map m_state (undoStack c0) @ map json_props (saved_states es c0)
     \<and> (\<forall>k. 0 < k \<and> k \<le> length us \<longrightarrow>
         orig_state (originator (undos (take k us) c)) =
           json_props (rev (saved_states es c0) ! (k - 1)))
     \<and> (\<forall>j. 0 < j \<and> j < length rs \<longrightarrow>
         orig_state (originator (redos (take j rs) (undos us c))) =
           json_props (saved_states es c0 ! j))"
proof -
  have len: "length us \<le> length (undoStack c)"
    using assms(1,2) edits_undoStack [of es c0] by simp
  have r1: "undo_results us c = replicate (length us) (JBool True)"
    by (rule undos_results [OF len])
  have "length rs \<le> length (redoStack (undos us c))"
    using undos_length [OF len] assms(3) by simp
  then have r2: "redo_results rs (undos us c) = replicate (length rs) (JBool True)"
    by (rule redos_results)
  have r3: "orig_state (originator (redos rs (undos us c))) =
         (if us = [] then orig_state (originator c) else json_props (orig_state (originator c)))"
    using undos_redos [OF assms(3) len] by simp
  have r4: "json_safe_props (orig_state (originator c)) \<longrightarrow>
         orig_state (originator (redos rs (undos us c))) = orig_state (originator c)"
    using r3 by (simp add: json_safe_props_copy)
  have r5: "orig_state (originator (undos (take k us) c)) =
           Memento_getState (rev (undoStack c) ! (k - 1))" if k: "0 < k" "k \<le> length us" for k
  proof -
    have ne: "take k us \<noteq> []" using k by auto
    have l: "length (take k us) \<le> length (undoStack c)" using k len by simp
    have "rev (undoStack c) ! (k - 1) = undoStack c ! (length (undoStack c) - k)"
      using k len by (simp add: rev_nth)
    then show ?thesis
      using undos_state [OF ne l] k by (simp add: min_absorb2)
  qed
  have r6: "orig_state (originator (redos (take j rs) (undos us c))) =
           json_props (orig_state (originator (undos (take (length us - j) us) c)))"
    if j: "0 < j" "j \<le> length rs" for j
  proof -
    define k where "k = length us - j"
    define c' where "c' = undos (take k us) c"
    have split: "undos us c = undos (drop k us) c'"
      using undos_append [of "take k us" "drop k us" c] by (simp add: c'_def)
    have l1: "length (take j rs) = length (drop k us)"
      using j assms(3) by (simp add: k_def)
    have "length (take k us) \<le> length (undoStack c)" using len by simp
    then have "length (undoStack c') = length (undoStack c) - length (take k us)"
      using undos_length [of "take k us" c] by (simp add: c'_def)
    then have l2: "length (drop k us) \<le> length (undoStack c')"
      using len j assms(3) by (simp add: k_def)
    have ne: "drop k us \<noteq> []" using j assms(3) by (simp add: k_def)
    show ?thesis
      using undos_redos [OF l1 l2] ne by (simp add: split c'_def k_def)
  qed
  have r7: "length (saved_states es c0) = length us"
    using assms(2) by (simp add: saved_states_length)
  have r8: "map m_state (undoStack c) =
         map m_state (undoStack c0) @ map json_props (saved_states es c0)"
    by (simp only: assms(1) edits_saved)
  have r9: "orig_state (originator (undos (take k us) c)) =
           json_props (rev (saved_states es c0) ! (k - 1))" if k: "0 < k" "k \<le> length us" for k
  proof -
    have ne: "take k us \<noteq> []" using k by auto
    have l: "length (take k us) \<le> length (undoStack c)" using k len by simp
    have "orig_state (originator (undos (take k us) c)) =
        Memento_getState (undoStack c ! (length (undoStack c) - k))"
      using undos_state [OF ne l] k by (simp add: min_absorb2)
    also have "\<dots> = json_props (rev (saved_states es c0) ! (k - 1))"
      unfolding assms(1) using k r7 by (intro top_saved) simp_all
    finally show ?thesis .
  qed
  have r10: "orig_state (originator (redos (take j rs) (undos us c))) =
           json_props (saved_states es c0 ! j)" if j: "0 < j" "j < length rs" for j
  proof -
    let ?S = "saved_states es c0"
    have k: "0 < length us - j" "length us - j \<le> length us"
      using j assms(3) by simp_all
    have "rev ?S ! (length us - j - 1) = ?S ! (length ?S - Suc (length us - j - 1))"
      using j assms(3) r7 by (intro rev_nth) simp
    also have "\<dots> = ?S ! j"
      using j assms(3) r7 by simp
    finally have i: "rev ?S ! (length us - j - 1) = ?S ! j" .
    have "orig_state (originator (redos (take j rs) (undos us c))) =
        json_props (orig_state (originator (undos (take (length us - j) us) c)))"
      using r6 j by simp
    also have "\<dots> = json_props (json_props (rev ?S ! (length us - j - 1)))"
      using r9 [OF k] by simp
    also have "\<dots> = json_props (?S ! j)"
      by (simp only: json_props_idem i)
    finally show ?thesis .
  qed
  show ?thesis using r1 r2 r3 r4 r5 r6 r7 r8 r9 r10 by blast
qed

text \<open>
  The script of \<^verbatim>\<open>19-memento.js\<close>: two saves, then both undone and redone.  The first
  \<^verbatim>\<open>undo()\<close> brings back the state of the second \<^verbatim>\<open>save()\<close>, the second that of the
  first, and the first \<^verbatim>\<open>redo()\<close> that of the second \<^verbatim>\<open>save()\<close> again.
\<close>

theorem undo_redo_inverse_witness:
  "length [3, 4 :: date] =
     length (filter is_Save
       [Save 1, SetState [(''a'', JNum (Finite 10))], Save 2, SetState [(''b'', JNum (Finite 20))]])
   \<and> length [5, 6 :: date] = length [3, 4 :: date]
   \<and> undo_results [3, 4]
        (edits [Save 1, SetState [(''a'', JNum (Finite 10))], Save 2,
                SetState [(''b'', JNum (Finite 20))]]
          (Caretaker_new (Originator_new [(''a'', JNum (Finite 1)), (''b'', JNum (Finite 2))])))
      = [JBool True, JBool True]
   \<and> orig_state (originator (undos [3]
        (edits [Save 1, SetState [(''a'', JNum (Finite 10))], Save 2,
                SetState [(''b'', JNum (Finite 20))]]
          (Caretaker_new (Originator_new [(''a'', JNum (Finite 1)), (''b'', JNum (Finite 2))])))))
      = [(''a'', JNum (Finite 10)), (''b'', JNum (Finite 2))]
   \<and> orig_state (originator (undos [3, 4]
        (edits [Save 1, SetState [(''a'', JNum (Finite 10))], Save 2,
                SetState [(''b'', JNum (Finite 20))]]
          (Caretaker_new (Originator_new [(''a'', JNum (Finite 1)), (''b'', JNum (Finite 2))])))))
      = [(''a'', JNum (Finite 1)), (''b'', JNum (Finite 2))]
   \<and> orig_state (originator (redos [5] (undos [3, 4]
        (edits [Save 1, SetState [(''a'', JNum (Finite 10))], Save 2,
                SetState [(''b'', JNum (Finite 20))]]
          (Caretaker_new (Originator_new [(''a'', JNum (Finite 1)), (''b'', JNum (Finite 2))]))))))
      = [(''a'', JNum (Finite 10)), (''b'', JNum (Finite 2))]
   \<and> orig_state (originator (redos [5, 6] (undos [3, 4]
        (edits [Save 1, SetState [(''a'', JNum (Finite 10))], Save 2,
                SetState [(''b'', JNum (Finite 20))]]
          (Caretaker_new (Originator_new [(''a'', JNum (Finite 1)), (''b'', JNum (Finite 2))]))))))
      = [(''a'', JNum (Finite 10)), (''b'', JNum (Finite 20))]"
proof -
  let ?es = "[Save 1, SetState [(''a'', JNum (Finite 10))], Save 2,
              SetState [(''b'', JNum (Finite 20))]]"
  let ?c0 = "Caretaker_new (Originator_new [(''a'', JNum (Finite 1)), (''b'', JNum (Finite 2))])"
  have s: "orig_state (originator (edits ?es ?c0)) =
      [(''a'', JNum (Finite 10)), (''b'', JNum (Finite 20))]"
    by (simp add: edits_def save_def Let_def Caretaker_new_def Originator_new_def
        Originator_setState_def object_spread_def set_prop_def array_index_def is_digit_def)
  have sv: "saved_states ?es ?c0 =
      [[(''a'', JNum (Finite 1)), (''b'', JNum (Finite 2))],
       [(''a'', JNum (Finite 10)), (''b'', JNum (Finite 2))]]"
    by (simp add: save_def Let_def Caretaker_new_def Originator_new_def
        Originator_setState_def object_spread_def set_prop_def array_index_def is_digit_def)
  have safe: "json_safe_props [(''a'', JNum (Finite 10)), (''b'', JNum (Finite 20))]"
    by (simp add: json_safe_props_def)
  have jp: "json_props [(''a'', JNum (Finite 1)), (''b'', JNum (Finite 2))] =
        [(''a'', JNum (Finite 1)), (''b'', JNum (Finite 2))]"
      "json_props [(''a'', JNum (Finite 10)), (''b'', JNum (Finite 2))] =
        [(''a'', JNum (Finite 10)), (''b'', JNum (Finite 2))]"
    by (simp_all add: json_props_def)
  have n: "length [3, 4 :: date] = length (filter is_Save ?es)" by simp
  have m: "length [5, 6 :: date] = length [3, 4 :: date]" by simp
  note t = undo_redo_inverse [OF refl n m, of ?c0]
  have r: "undo_results [3, 4] (edits ?es ?c0) = [JBool True, JBool True]"
    using t [THEN conjunct1] by (simp add: numeral_2_eq_2)
  have f: "orig_state (originator (redos [5, 6] (undos [3, 4] (edits ?es ?c0)))) =
      orig_state (originator (edits ?es ?c0))"
    using t [THEN conjunct2, THEN conjunct2, THEN conjunct2, THEN conjunct1] s safe
    by (simp only:)
  have lifo: "\<forall>k. 0 < k \<and> k \<le> length [3, 4 :: date] \<longrightarrow>
         orig_state (originator (undos (take k [3, 4]) (edits ?es ?c0))) =
           json_props (rev (saved_states ?es ?c0) ! (k - 1))"
    and redone: "\<forall>j. 0 < j \<and> j < length [5, 6 :: date] \<longrightarrow>
         orig_state (originator (redos (take j [5, 6]) (undos [3, 4] (edits ?es ?c0)))) =
           json_props (saved_states ?es ?c0 ! j)"
    using t by blast+
  have u1: "orig_state (originator (undos [3] (edits ?es ?c0))) =
      [(''a'', JNum (Finite 10)), (''b'', JNum (Finite 2))]"
    using lifo [rule_format, of 1, unfolded sv] by (simp add: jp)
  have u2: "orig_state (originator (undos [3, 4] (edits ?es ?c0))) =
      [(''a'', JNum (Finite 1)), (''b'', JNum (Finite 2))]"
    using lifo [rule_format, of 2, unfolded sv] by (simp add: jp)
  have r1: "orig_state (originator (redos [5] (undos [3, 4] (edits ?es ?c0)))) =
      [(''a'', JNum (Finite 10)), (''b'', JNum (Finite 2))]"
    using redone [rule_format, of 1, unfolded sv] by (simp add: jp)
  show ?thesis
    using n m r u1 u2 r1 f s by (simp only:)
qed

text \<open>
  As the claim is written, with "exactly the state", it fails: a state with a property
  \<^verbatim>\<open>NaN\<close> comes back with \<^verbatim>\<open>null\<close> in its place after one \<^verbatim>\<open>save()\<close>, one \<^verbatim>\<open>undo()\<close>
  and one \<^verbatim>\<open>redo()\<close>.
\<close>

theorem undo_redo_inverse_counterexample:
  "orig_state (originator (redos [4] (undos [3]
      (edits [Save 1, SetState [(''b'', JNum NaN)]]
        (Caretaker_new (Originator_new [(''a'', JNum (Finite 1))]))))))
   \<noteq> orig_state (originator
      (edits [Save 1, SetState [(''b'', JNum NaN)]]
        (Caretaker_new (Originator_new [(''a'', JNum (Finite 1))]))))"
  by (simp add: edits_def undos_def redos_def save_def undo_def redo_def Let_def
      Caretaker_new_def Originator_new_def Originator_setState_def object_spread_def set_prop_def array_index_def is_digit_def
      createMemento_def restore_def Memento_new_def Memento_getState_def json_props_def)

subsection \<open>Saving invalidates redo\<close>

text \<open>
  Claim C2, as amended.  Every \<^verbatim>\<open>save()\<close> leaves the redo stack empty.  After
  \<^verbatim>\<open>save(); save(); undo(); save()\<close> on any caretaker, the one snapshot that the \<^verbatim>\<open>undo()\<close>
  had put on the redo stack is gone, and \<^verbatim>\<open>redo()\<close> returns \<^verbatim>\<open>false\<close> and changes
  nothing.
\<close>

theorem save_clears_redoStack:
  "redoStack (snd (save now c)) = []
   \<and> redoStack (snd (undo t3 (snd (save t2 (snd (save t1 c)))))) =
       [createMemento t3 (originator c)]
   \<and> redoStack (snd (save t4 (snd (undo t3 (snd (save t2 (snd (save t1 c)))))))) = []
   \<and> redo t5 (snd (save t4 (snd (undo t3 (snd (save t2 (snd (save t1 c)))))))) =
       (JBool False, snd (save t4 (snd (undo t3 (snd (save t2 (snd (save t1 c))))))))"
  by (simp add: save_step undo_step redo_empty createMemento_def)

text \<open>The value that this \<^verbatim>\<open>redo()\<close> returns is the boolean, neither \<^verbatim>\<open>null\<close> nor \<^verbatim>\<open>undefined\<close>.\<close>

theorem save_clears_redoStack_counterexample:
  "fst (redo 5 (snd (save 4 (snd (undo 3 (snd (save 2 (snd (save 1
      (Caretaker_new (Originator_new [(''a'', JNum (Finite 1))]))))))))))) = JBool False
   \<and> \<not> nullish (fst (redo 5 (snd (save 4 (snd (undo 3 (snd (save 2 (snd (save 1
      (Caretaker_new (Originator_new [(''a'', JNum (Finite 1))]))))))))))))"
  by (simp add: save_step undo_step redo_empty nullish_def)

subsection \<open>Undo and redo on an empty stack\<close>

text \<open>
  Claim C6, as amended.  \<^verbatim>\<open>undo()\<close> on an empty undo stack, and \<^verbatim>\<open>redo()\<close> on an empty
  redo stack, returns \<^verbatim>\<open>false\<close> and leaves the caretaker as it was: both stacks and
  the owner's state.  A second call does the same.  The result is a value, never an
  exception: the branch returns before anything else runs.
\<close>

theorem empty_undo_redo:
  "(undoStack c = [] \<longrightarrow>
      undo now c = (JBool False, c) \<and> undo now' (snd (undo now c)) = (JBool False, c))
   \<and> (redoStack c = [] \<longrightarrow>
      redo now c = (JBool False, c) \<and> redo now' (snd (redo now c)) = (JBool False, c))"
  by (simp add: undo_empty redo_empty)

theorem empty_undo_redo_witness:
  "undoStack (Caretaker_new (Originator_new [(''a'', JNum (Finite 1))])) = []
   \<and> redoStack (Caretaker_new (Originator_new [(''a'', JNum (Finite 1))])) = []
   \<and> undo 1 (Caretaker_new (Originator_new [(''a'', JNum (Finite 1))])) =
       (JBool False, Caretaker_new (Originator_new [(''a'', JNum (Finite 1))]))
   \<and> undo 2 (snd (undo 1 (Caretaker_new (Originator_new [(''a'', JNum (Finite 1))])))) =
       (JBool False, Caretaker_new (Originator_new [(''a'', JNum (Finite 1))]))
   \<and> redo 1 (Caretaker_new (Originator_new [(''a'', JNum (Finite 1))])) =
       (JBool False, Caretaker_new (Originator_new [(''a'', JNum (Finite 1))]))
   \<and> redo 2 (snd (redo 1 (Caretaker_new (Originator_new [(''a'', JNum (Finite 1))])))) =
       (JBool False, Caretaker_new (Originator_new [(''a'', JNum (Finite 1))]))"
proof -
  let ?c = "Caretaker_new (Originator_new [(''a'', JNum (Finite 1))])"
  have e: "undoStack ?c = []" "redoStack ?c = []"
    by (simp_all add: Caretaker_new_def)
  show ?thesis
    using empty_undo_redo [of ?c 1 2] e by blast
qed

text \<open>The value returned is the boolean, neither \<^verbatim>\<open>null\<close> nor \<^verbatim>\<open>undefined\<close>.\<close>

theorem empty_undo_redo_counterexample:
  "fst (undo 1 (Caretaker_new (Originator_new [(''a'', JNum (Finite 1))]))) = JBool False
   \<and> \<not> nullish (fst (undo 1 (Caretaker_new (Originator_new [(''a'', JNum (Finite 1))]))))
   \<and> fst (redo 1 (Caretaker_new (Originator_new [(''a'', JNum (Finite 1))]))) = JBool False
   \<and> \<not> nullish (fst (redo 1 (Caretaker_new (Originator_new [(''a'', JNum (Finite 1))]))))"
  by (simp add: undo_def redo_def Caretaker_new_def nullish_def)

subsection \<open>Undo on a stack that is not empty\<close>

text \<open>
  Claim C8, as amended.  \<^verbatim>\<open>undo()\<close> on an undo stack that is not empty pops the top
  snapshot, pushes a new snapshot of the owner's current state on the redo stack,
  restores the owner from the popped snapshot itself, and returns \<^verbatim>\<open>true\<close>.
\<close>

theorem undo_nonempty:
  "undoStack c \<noteq> [] \<Longrightarrow>
   undo now c = (JBool True,
     c\<lparr>originator := (originator c)\<lparr>orig_state := Memento_getState (last (undoStack c))\<rparr>,
       undoStack := butlast (undoStack c),
       redoStack := redoStack c @ [Memento_new (orig_state (originator c)) now]\<rparr>)"
  by (rule undo_step)

theorem undo_nonempty_witness:
  "undoStack \<lparr>originator = \<lparr>orig_state = [(''a'', JNum (Finite 10))]\<rparr>,
             undoStack = [\<lparr>m_state = [(''a'', JNum (Finite 1))], m_createdAt = 1\<rparr>],
             redoStack = []\<rparr> \<noteq> []
   \<and> undo 2 \<lparr>originator = \<lparr>orig_state = [(''a'', JNum (Finite 10))]\<rparr>,
             undoStack = [\<lparr>m_state = [(''a'', JNum (Finite 1))], m_createdAt = 1\<rparr>],
             redoStack = []\<rparr> =
      (JBool True,
       \<lparr>originator = \<lparr>orig_state = [(''a'', JNum (Finite 1))]\<rparr>,
        undoStack = [],
        redoStack = [\<lparr>m_state = [(''a'', JNum (Finite 10))], m_createdAt = 2\<rparr>]\<rparr>)"
proof -
  let ?c = "\<lparr>originator = \<lparr>orig_state = [(''a'', JNum (Finite 10))]\<rparr>,
             undoStack = [\<lparr>m_state = [(''a'', JNum (Finite 1))], m_createdAt = 1\<rparr>],
             redoStack = []\<rparr>"
  have ne: "undoStack ?c \<noteq> []" by simp
  show ?thesis
    using undo_nonempty [OF ne, of 2] ne
    by (simp add: Memento_getState_def Memento_new_def json_props_def)
qed

text \<open>
  The returned value is not the snapshot: two caretakers whose top snapshots differ
  return the same \<^verbatim>\<open>true\<close>, and the owner has already been changed when the call returns.
\<close>

theorem undo_nonempty_counterexample:
  "fst (undo 2 \<lparr>originator = \<lparr>orig_state = [(''a'', JNum (Finite 10))]\<rparr>,
             undoStack = [\<lparr>m_state = [(''a'', JNum (Finite 1))], m_createdAt = 1\<rparr>],
             redoStack = []\<rparr>) = JBool True
   \<and> fst (undo 2 \<lparr>originator = \<lparr>orig_state = [(''a'', JNum (Finite 10))]\<rparr>,
             undoStack = [\<lparr>m_state = [(''a'', JNum (Finite 7))], m_createdAt = 1\<rparr>],
             redoStack = []\<rparr>) = JBool True
   \<and> originator (snd (undo 2 \<lparr>originator = \<lparr>orig_state = [(''a'', JNum (Finite 10))]\<rparr>,
             undoStack = [\<lparr>m_state = [(''a'', JNum (Finite 1))], m_createdAt = 1\<rparr>],
             redoStack = []\<rparr>)) = \<lparr>orig_state = [(''a'', JNum (Finite 1))]\<rparr>"
  by (simp add: undo_def Let_def restore_def createMemento_def Memento_getState_def
      Memento_new_def json_props_def)


section \<open>Properties of the order\<close>

subsection \<open>The effect of one call and of a run of calls\<close>

lemma console_log_simps [simp]:
  "arrays (console_log m w) = arrays w"
  "console (console_log m w) = console w @ [m]"
  by (simp_all add: console_log_def)

lemma setState_ok:
  "stateHistory ord < length (arrays w) \<Longrightarrow>
   Order_setState now new ord w =
     Inr (JUndefined, ord\<lparr>state := new\<rparr>,
       w\<lparr>arrays := (arrays w)[stateHistory ord := arrays w ! stateHistory ord @
            [\<lparr>tr_from = getName (state ord), tr_to = getName new, tr_timestamp = now\<rparr>]],
         console := console w @ [StateChanged (order_id ord) (getName (state ord)) (getName new)]\<rparr>)"
  by (simp add: Order_setState_def array_push_def Let_def console_log_def)

lemma history_eq:
  "stateHistory ord < length (arrays w) \<Longrightarrow> history ord w = arrays w ! stateHistory ord"
  by (simp add: history_def array_get_def)

lemma process_effect:
  assumes "stateHistory ord < length (arrays w)" "state ord \<noteq> OrderState"
  shows "\<exists>o' w'. Order_process r now ord w = Inr (JUndefined, o', w') \<and>
     stateHistory o' = stateHistory ord \<and> length (arrays w') = length (arrays w) \<and>
     state o' \<noteq> OrderState \<and>
     history o' w' = history ord w @
       (if state o' = state ord then []
        else [\<lparr>tr_from = getName (state ord), tr_to = getName (state o'), tr_timestamp = now\<rparr>])"
  using assms
  by (cases "state ord")
     (simp_all add: Order_process_def checkAvailability_def checkPayment_def
        prepareForShipping_def checkDelivery_def refundPayment_def Let_def setState_ok history_eq)

lemma cancel_effect:
  assumes "stateHistory ord < length (arrays w)" "state ord \<noteq> OrderState"
  shows "\<exists>o' w'. Order_cancel now ord w = Inr (JUndefined, o', w') \<and>
     stateHistory o' = stateHistory ord \<and> length (arrays w') = length (arrays w) \<and>
     state o' \<noteq> OrderState \<and>
     history o' w' = history ord w @
       (if state o' = state ord then []
        else [\<lparr>tr_from = getName (state ord), tr_to = getName (state o'), tr_timestamp = now\<rparr>])"
  using assms
  by (cases "state ord")
     (simp_all add: Order_cancel_def refundPayment_def Let_def setState_ok history_eq)

lemma return_effect:
  assumes "stateHistory ord < length (arrays w)" "state ord \<noteq> OrderState"
  shows "\<exists>o' w'. Order_return now ord w = Inr (JUndefined, o', w') \<and>
     stateHistory o' = stateHistory ord \<and> length (arrays w') = length (arrays w) \<and>
     state o' \<noteq> OrderState \<and>
     history o' w' = history ord w @
       (if state o' = state ord then []
        else [\<lparr>tr_from = getName (state ord), tr_to = getName (state o'), tr_timestamp = now\<rparr>])"
  using assms
  by (cases "state ord")
     (simp_all add: Order_return_def Let_def setState_ok history_eq)

lemma call_effect:
  assumes "stateHistory ord < length (arrays w)" "state ord \<noteq> OrderState"
  shows "\<exists>o' w'. Order_call c ord w = Inr (JUndefined, o', w') \<and>
     stateHistory o' = stateHistory ord \<and> length (arrays w') = length (arrays w) \<and>
     state o' \<noteq> OrderState \<and>
     history o' w' = history ord w @
       (if state o' = state ord then []
        else [\<lparr>tr_from = getName (state ord), tr_to = getName (state o'),
               tr_timestamp = call_now c\<rparr>])"
proof (cases c)
  case (Process r now)
  then show ?thesis
    by (simp only: Order_call.simps call_now.simps process_effect [OF assms])
next
  case (Cancel now)
  then show ?thesis
    by (simp only: Order_call.simps call_now.simps cancel_effect [OF assms])
next
  case (Return now)
  then show ?thesis
    by (simp only: Order_call.simps call_now.simps return_effect [OF assms])
qed

lemma calls_effect:
  "stateHistory ord < length (arrays w) \<Longrightarrow> state ord \<noteq> OrderState \<Longrightarrow>
   \<exists>o' w'. Order_calls cs ord w = Inr (o', w') \<and>
     stateHistory o' = stateHistory ord \<and> length (arrays w') = length (arrays w) \<and>
     state o' \<noteq> OrderState \<and>
     history o' w' = history ord w @ transitions cs ord w"
proof (induction cs arbitrary: ord w)
  case Nil
  then show ?case by simp
next
  case (Cons c cs)
  from call_effect [OF Cons.prems, of c] obtain o1 w1 where
    c1: "Order_call c ord w = Inr (JUndefined, o1, w1)"
    and wf1: "stateHistory o1 = stateHistory ord" "length (arrays w1) = length (arrays w)"
      "state o1 \<noteq> OrderState"
    and h1: "history o1 w1 = history ord w @
       (if state o1 = state ord then []
        else [\<lparr>tr_from = getName (state ord), tr_to = getName (state o1),
               tr_timestamp = call_now c\<rparr>])"
    by blast
  have "stateHistory o1 < length (arrays w1)" using wf1 Cons.prems by simp
  from Cons.IH [OF this wf1(3)] obtain o2 w2 where
    c2: "Order_calls cs o1 w1 = Inr (o2, w2)"
    and wf2: "stateHistory o2 = stateHistory o1" "length (arrays w2) = length (arrays w1)"
      "state o2 \<noteq> OrderState"
    and h2: "history o2 w2 = history o1 w1 @ transitions cs o1 w1"
    by blast
  show ?case
    using c1 c2 wf1 wf2 h1 h2 by simp
qed

lemma abstract_state_throws:
  "state ord = OrderState \<Longrightarrow>
   Order_process r now ord w = Inl (NotOverridden ''process'')
   \<and> Order_cancel now ord w = Inl (NotOverridden ''cancel'')
   \<and> Order_return now ord w = Inl (NotOverridden ''return'')"
  by (simp add: Order_process_def Order_cancel_def Order_return_def)

lemma Order_new_history:
  "stateHistory (fst (Order_new ident its t w)) < length (arrays (snd (Order_new ident its t w)))
   \<and> state (fst (Order_new ident its t w)) = CreatedState
   \<and> history (fst (Order_new ident its t w)) (snd (Order_new ident its t w)) = []"
  by (simp add: Order_new_def history_def array_get_def)

lemma refunds_log: "refunds (console_log m w) = refunds w + (if is_Refunded m then 1 else 0)"
  by (simp add: refunds_def)

lemma refunds_console [simp]: "refunds (w\<lparr>arrays := h\<rparr>) = refunds w"
  by (simp add: refunds_def)

lemmas order_defs = Order_new_def Order_process_def Order_cancel_def Order_return_def
  checkAvailability_def checkPayment_def prepareForShipping_def checkDelivery_def
  double_0_1_def double_0_2_def double_0_3_def double_0_4_def
  refundPayment_def Let_def Order_setState_def array_push_def array_get_def console_log_def
  history_def refunds_def

subsection \<open>The history is append-only\<close>

text \<open>
  Claim C3.  Take an order whose history field holds an array and whose state is one of
  the seven concrete states.  \<^verbatim>\<open>setState\<close> makes the new state current and appends
  exactly one record \<^verbatim>\<open>{from, to, timestamp}\<close> to the history.  A call of \<^verbatim>\<open>process()\<close>,
  \<^verbatim>\<open>cancel()\<close> or \<^verbatim>\<open>return()\<close> throws nothing and leaves the old records in place: it
  appends one record, of the transition made, when it changes the state, and nothing
  when it does not.  So after any run of calls the history is the old history followed
  by the records of the accepted transitions, in order, and its length has grown by
  their number.
\<close>

theorem history_append_only:
  assumes "stateHistory ord < length (arrays w)" and "state ord \<noteq> OrderState"
  shows "(\<exists>o' w'. Order_setState now newState ord w = Inr (JUndefined, o', w')
            \<and> state o' = newState
            \<and> history o' w' = history ord w @
                [\<lparr>tr_from = getName (state ord), tr_to = getName newState, tr_timestamp = now\<rparr>])
     \<and> (\<exists>o' w'. Order_call c ord w = Inr (JUndefined, o', w')
            \<and> history o' w' = history ord w @
                (if state o' = state ord then []
                 else [\<lparr>tr_from = getName (state ord), tr_to = getName (state o'),
                        tr_timestamp = call_now c\<rparr>]))
     \<and> (\<exists>o' w'. Order_calls cs ord w = Inr (o', w')
            \<and> history o' w' = history ord w @ transitions cs ord w
            \<and> length (history o' w') = length (history ord w) + length (transitions cs ord w))"
proof -
  have a: "\<exists>o' w'. Order_setState now newState ord w = Inr (JUndefined, o', w')
            \<and> state o' = newState
            \<and> history o' w' = history ord w @
                [\<lparr>tr_from = getName (state ord), tr_to = getName newState, tr_timestamp = now\<rparr>]"
    using assms(1) by (simp add: setState_ok history_eq)
  have b: "\<exists>o' w'. Order_call c ord w = Inr (JUndefined, o', w')
            \<and> history o' w' = history ord w @
                (if state o' = state ord then []
                 else [\<lparr>tr_from = getName (state ord), tr_to = getName (state o'),
                        tr_timestamp = call_now c\<rparr>])"
    using call_effect [OF assms, of c] by blast
  from calls_effect [OF assms, of cs] obtain o' w' where
    "Order_calls cs ord w = Inr (o', w')" "history o' w' = history ord w @ transitions cs ord w"
    by blast
  then have c: "\<exists>o' w'. Order_calls cs ord w = Inr (o', w')
            \<and> history o' w' = history ord w @ transitions cs ord w
            \<and> length (history o' w') = length (history ord w) + length (transitions cs ord w)"
    by simp
  show ?thesis using a b c by blast
qed

text \<open>
  A new order: two accepted \<^verbatim>\<open>process()\<close> calls and an accepted \<^verbatim>\<open>cancel()\<close> leave three
  records, and a further \<^verbatim>\<open>cancel()\<close> adds none.
\<close>

theorem history_append_only_witness:
  "stateHistory (fst (Order_new ''ORD-001'' [''Laptop''] 0 \<lparr>arrays = [], console = []\<rparr>))
     < length (arrays (snd (Order_new ''ORD-001'' [''Laptop''] 0 \<lparr>arrays = [], console = []\<rparr>)))
   \<and> state (fst (Order_new ''ORD-001'' [''Laptop''] 0 \<lparr>arrays = [], console = []\<rparr>))
     \<noteq> OrderState
   \<and> (\<exists>o' w'.
        Order_calls [Process 0.5 ''t1'', Process 0.5 ''t2'', Cancel ''t3'', Cancel ''t4'']
          (fst (Order_new ''ORD-001'' [''Laptop''] 0 \<lparr>arrays = [], console = []\<rparr>))
          (snd (Order_new ''ORD-001'' [''Laptop''] 0 \<lparr>arrays = [], console = []\<rparr>))
          = Inr (o', w')
        \<and> history o' w' =
          [\<lparr>tr_from = ''CreatedState'', tr_to = ''ConfirmedState'', tr_timestamp = ''t1''\<rparr>,
           \<lparr>tr_from = ''ConfirmedState'', tr_to = ''PaidState'', tr_timestamp = ''t2''\<rparr>,
           \<lparr>tr_from = ''PaidState'', tr_to = ''CancelledState'', tr_timestamp = ''t3''\<rparr>])"
proof -
  let ?o = "fst (Order_new ''ORD-001'' [''Laptop''] 0 \<lparr>arrays = [], console = []\<rparr>)"
  let ?w = "snd (Order_new ''ORD-001'' [''Laptop''] 0 \<lparr>arrays = [], console = []\<rparr>)"
  let ?cs = "[Process 0.5 ''t1'', Process 0.5 ''t2'', Cancel ''t3'', Cancel ''t4'']"
  have h1: "stateHistory ?o < length (arrays ?w)" and h2: "state ?o \<noteq> OrderState"
    and h0: "history ?o ?w = []"
    by (simp_all add: Order_new_history)
  have t: "transitions ?cs ?o ?w =
          [\<lparr>tr_from = ''CreatedState'', tr_to = ''ConfirmedState'', tr_timestamp = ''t1''\<rparr>,
           \<lparr>tr_from = ''ConfirmedState'', tr_to = ''PaidState'', tr_timestamp = ''t2''\<rparr>,
           \<lparr>tr_from = ''PaidState'', tr_to = ''CancelledState'', tr_timestamp = ''t3''\<rparr>]"
    by (simp add: order_defs)
  from history_append_only [OF h1 h2, of _ _ _ ?cs] obtain o' w' where
    "Order_calls ?cs ?o ?w = Inr (o', w')" "history o' w' = history ?o ?w @ transitions ?cs ?o ?w"
    by blast
  then have "\<exists>o' w'. Order_calls ?cs ?o ?w = Inr (o', w') \<and> history o' w' = transitions ?cs ?o ?w"
    using h0 by simp
  then show ?thesis
    using h1 h2 t by (simp only: simp_thms)
qed

subsection \<open>Cancelling\<close>

text \<open>
  Claim C4.  On an order in a concrete state, \<^verbatim>\<open>cancel()\<close> throws nothing.  From
  Created, Confirmed and Paid, and from no other state, it moves the order to
  Cancelled and records the transition.  \<^verbatim>\<open>refundPayment()\<close> runs once when the order
  was Paid and not at all otherwise.  From Shipped, Delivered, Returned and Cancelled
  the call prints one line and changes neither the order nor any array.
\<close>

theorem cancel_by_state:
  assumes "stateHistory ord < length (arrays w)" and "state ord \<noteq> OrderState"
  shows "\<exists>o' w'. Order_cancel now ord w = Inr (JUndefined, o', w')
     \<and> (state ord \<in> {CreatedState, ConfirmedState, PaidState} \<longrightarrow>
          state o' = CancelledState
          \<and> history o' w' = history ord w @
              [\<lparr>tr_from = getName (state ord), tr_to = ''CancelledState'', tr_timestamp = now\<rparr>])
     \<and> (state ord \<in> {ShippedState, DeliveredState, ReturnedState, CancelledState} \<longrightarrow>
          o' = ord \<and> arrays w' = arrays w
          \<and> console w' = console w @
              [if state ord = CancelledState
               then AlreadyCancelled (getName (state ord)) (order_id ord)
               else CancelImpossible (getName (state ord))])
     \<and> ((state o' = CancelledState \<and> state o' \<noteq> state ord)
          = (state ord \<in> {CreatedState, ConfirmedState, PaidState}))
     \<and> refunds w' = refunds w + (if state ord = PaidState then 1 else 0)
     \<and> paymentStatus o' = (if state ord = PaidState then ''refunded'' else paymentStatus ord)"
  using assms
  by (cases "state ord")
     (simp_all add: Order_cancel_def refundPayment_def Let_def setState_ok history_eq
        refunds_def)

theorem cancel_by_state_witness:
  "stateHistory \<lparr>order_id = ''ORD-001'', items = [''Laptop''], state = PaidState,
       paymentStatus = ''paid'', shippingStatus = ''not_shipped'',
       deliveryStatus = ''not_delivered'', stateHistory = 0, createdAt = 0\<rparr>
     < length (arrays \<lparr>arrays = [[]], console = []\<rparr>)
   \<and> state \<lparr>order_id = ''ORD-001'', items = [''Laptop''], state = PaidState,
       paymentStatus = ''paid'', shippingStatus = ''not_shipped'',
       deliveryStatus = ''not_delivered'', stateHistory = 0, createdAt = 0\<rparr> \<noteq> OrderState
   \<and> (\<exists>o' w'.
        Order_cancel ''t3'' \<lparr>order_id = ''ORD-001'', items = [''Laptop''], state = PaidState,
          paymentStatus = ''paid'', shippingStatus = ''not_shipped'',
          deliveryStatus = ''not_delivered'', stateHistory = 0, createdAt = 0\<rparr>
          \<lparr>arrays = [[]], console = []\<rparr> = Inr (JUndefined, o', w')
        \<and> state o' = CancelledState \<and> paymentStatus o' = ''refunded'' \<and> refunds w' = 1
        \<and> history o' w' =
            [\<lparr>tr_from = ''PaidState'', tr_to = ''CancelledState'', tr_timestamp = ''t3''\<rparr>])"
proof -
  let ?o = "\<lparr>order_id = ''ORD-001'', items = [''Laptop''], state = PaidState,
       paymentStatus = ''paid'', shippingStatus = ''not_shipped'',
       deliveryStatus = ''not_delivered'', stateHistory = 0, createdAt = 0\<rparr>"
  let ?w = "\<lparr>arrays = [[]], console = []\<rparr>"
  have h1: "stateHistory ?o < length (arrays ?w)" and h2: "state ?o \<noteq> OrderState" by simp_all
  have h0: "history ?o ?w = []" "refunds ?w = 0"
    by (simp_all add: history_def array_get_def refunds_def)
  have "\<exists>o' w'. Order_cancel ''t3'' ?o ?w = Inr (JUndefined, o', w')
      \<and> state o' = CancelledState \<and> paymentStatus o' = ''refunded''
      \<and> refunds w' = refunds ?w + 1
      \<and> history o' w' = history ?o ?w @
          [\<lparr>tr_from = ''PaidState'', tr_to = ''CancelledState'', tr_timestamp = ''t3''\<rparr>]"
    using cancel_by_state [OF h1 h2, of "''t3''"] by fastforce
  then show ?thesis
    using h0 h1 h2 by simp
qed

subsection \<open>Returning\<close>

text \<open>
  Claim C5, as amended.  On an order in a concrete state, \<^verbatim>\<open>return()\<close> throws nothing.
  From Delivered it moves the order to Returned, records the transition and changes
  nothing else: the payment status stays as it was and \<^verbatim>\<open>refundPayment()\<close> does not run.
  The refund is made by the next \<^verbatim>\<open>process()\<close>, in the Returned state.  From every
  other state the call prints one line and changes neither the order nor any array.
\<close>

theorem return_by_state:
  assumes "stateHistory ord < length (arrays w)" and "state ord \<noteq> OrderState"
  shows "\<exists>o' w'. Order_return now ord w = Inr (JUndefined, o', w')
     \<and> (state ord = DeliveredState \<longrightarrow>
          o' = ord\<lparr>state := ReturnedState\<rparr>
          \<and> history o' w' = history ord w @
              [\<lparr>tr_from = ''DeliveredState'', tr_to = ''ReturnedState'', tr_timestamp = now\<rparr>]
          \<and> (\<exists>o'' w''. Order_process r now' o' w' = Inr (JUndefined, o'', w'')
                \<and> state o'' = ReturnedState \<and> paymentStatus o'' = ''refunded''
                \<and> refunds w'' = refunds w + 1))
     \<and> (state ord \<noteq> DeliveredState \<longrightarrow>
          o' = ord \<and> arrays w' = arrays w
          \<and> console w' = console w @
              [if state ord = ReturnedState then AlreadyReturned (getName (state ord))
               else ReturnImpossible (getName (state ord))])
     \<and> paymentStatus o' = paymentStatus ord
     \<and> refunds w' = refunds w"
  using assms
  by (cases "state ord")
     (simp_all add: Order_return_def Order_process_def refundPayment_def Let_def setState_ok
        history_eq refunds_def)

theorem return_by_state_witness:
  "stateHistory \<lparr>order_id = ''ORD-001'', items = [''Laptop''], state = DeliveredState,
       paymentStatus = ''paid'', shippingStatus = ''ready'',
       deliveryStatus = ''delivered'', stateHistory = 0, createdAt = 0\<rparr>
     < length (arrays \<lparr>arrays = [[]], console = []\<rparr>)
   \<and> state \<lparr>order_id = ''ORD-001'', items = [''Laptop''], state = DeliveredState,
       paymentStatus = ''paid'', shippingStatus = ''ready'',
       deliveryStatus = ''delivered'', stateHistory = 0, createdAt = 0\<rparr> \<noteq> OrderState
   \<and> (\<exists>o' w'.
        Order_return ''t5'' \<lparr>order_id = ''ORD-001'', items = [''Laptop''], state = DeliveredState,
          paymentStatus = ''paid'', shippingStatus = ''ready'',
          deliveryStatus = ''delivered'', stateHistory = 0, createdAt = 0\<rparr>
          \<lparr>arrays = [[]], console = []\<rparr> = Inr (JUndefined, o', w')
        \<and> state o' = ReturnedState \<and> paymentStatus o' = ''paid'' \<and> refunds w' = 0
        \<and> history o' w' =
            [\<lparr>tr_from = ''DeliveredState'', tr_to = ''ReturnedState'', tr_timestamp = ''t5''\<rparr>])"
proof -
  let ?o = "\<lparr>order_id = ''ORD-001'', items = [''Laptop''], state = DeliveredState,
       paymentStatus = ''paid'', shippingStatus = ''ready'',
       deliveryStatus = ''delivered'', stateHistory = 0, createdAt = 0\<rparr>"
  let ?w = "\<lparr>arrays = [[]], console = []\<rparr>"
  have h1: "stateHistory ?o < length (arrays ?w)" and h2: "state ?o \<noteq> OrderState" by simp_all
  have h0: "history ?o ?w = []" "refunds ?w = 0" "paymentStatus ?o = ''paid''"
    by (simp_all add: history_def array_get_def refunds_def)
  have "\<exists>o' w'. Order_return ''t5'' ?o ?w = Inr (JUndefined, o', w')
      \<and> state o' = ReturnedState \<and> paymentStatus o' = paymentStatus ?o
      \<and> refunds w' = refunds ?w
      \<and> history o' w' = history ?o ?w @
          [\<lparr>tr_from = ''DeliveredState'', tr_to = ''ReturnedState'', tr_timestamp = ''t5''\<rparr>]"
    using return_by_state [OF h1 h2, of "''t5''"] by fastforce
  then show ?thesis
    using h0 h1 h2 by simp
qed

text \<open>
  The script of \<^verbatim>\<open>18-mediator.js\<close>, with every check passing: the order is delivered
  and then returned.  After \<^verbatim>\<open>return()\<close> the payment status is still \<^verbatim>\<open>paid\<close> and no
  refund has run, so the transition to Returned does not trigger the refund.
\<close>

theorem return_by_state_counterexample:
  "\<exists>o' w'.
     Order_calls [Process 0.5 ''t1'', Process 0.5 ''t2'', Process 0.5 ''t3'', Process 0.5 ''t4'',
                  Return ''t5'']
       (fst (Order_new ''ORD-001'' [''Laptop''] 0 \<lparr>arrays = [], console = []\<rparr>))
       (snd (Order_new ''ORD-001'' [''Laptop''] 0 \<lparr>arrays = [], console = []\<rparr>))
       = Inr (o', w')
     \<and> state o' = ReturnedState \<and> paymentStatus o' = ''paid'' \<and> refunds w' = 0"
  by (simp add: order_defs)

subsection \<open>Rejected operations\<close>

text \<open>
  Claim C7, as amended.  When the current state rejects the operation, the call of
  \<^verbatim>\<open>process()\<close>, \<^verbatim>\<open>cancel()\<close> or \<^verbatim>\<open>return()\<close> throws nothing, prints one line, changes
  neither the order nor any array, and evaluates to \<^verbatim>\<open>undefined\<close>: no flag is returned.
  In particular \<^verbatim>\<open>cancel()\<close> on a Delivered order prints that cancelling is impossible
  and leaves the order Delivered.
\<close>

theorem rejection_is_logged:
  assumes "rejects (state ord) c"
  shows "(\<exists>m. Order_call c ord w = Inr (JUndefined, ord, console_log m w))
     \<and> (state ord = DeliveredState \<longrightarrow>
          Order_cancel now ord w =
            Inr (JUndefined, ord, console_log (CancelImpossible ''DeliveredState'') w))"
  using assms
  by (cases "state ord"; cases c)
     (auto simp: Order_process_def Order_cancel_def Order_return_def)

theorem rejection_is_logged_witness:
  "rejects (state \<lparr>order_id = ''ORD-001'', items = [''Laptop''], state = DeliveredState,
       paymentStatus = ''paid'', shippingStatus = ''ready'',
       deliveryStatus = ''delivered'', stateHistory = 0, createdAt = 0\<rparr>) (Cancel ''t5'')
   \<and> Order_call (Cancel ''t5'')
        \<lparr>order_id = ''ORD-001'', items = [''Laptop''], state = DeliveredState,
          paymentStatus = ''paid'', shippingStatus = ''ready'',
          deliveryStatus = ''delivered'', stateHistory = 0, createdAt = 0\<rparr>
        \<lparr>arrays = [[]], console = []\<rparr>
      = Inr (JUndefined,
          \<lparr>order_id = ''ORD-001'', items = [''Laptop''], state = DeliveredState,
            paymentStatus = ''paid'', shippingStatus = ''ready'',
            deliveryStatus = ''delivered'', stateHistory = 0, createdAt = 0\<rparr>,
          \<lparr>arrays = [[]], console = [CancelImpossible ''DeliveredState'']\<rparr>)"
proof -
  let ?o = "\<lparr>order_id = ''ORD-001'', items = [''Laptop''], state = DeliveredState,
       paymentStatus = ''paid'', shippingStatus = ''ready'',
       deliveryStatus = ''delivered'', stateHistory = 0, createdAt = 0\<rparr>"
  let ?w = "\<lparr>arrays = [[]], console = []\<rparr>"
  have h: "rejects (state ?o) (Cancel ''t5'')" by simp
  show ?thesis
    using rejection_is_logged [OF h, of ?w "''t5''"] h
    by (simp add: console_log_def)
qed

text \<open>
  \<^verbatim>\<open>cancel()\<close> evaluates to \<^verbatim>\<open>undefined\<close> on a Delivered order, where it is rejected, and
  on a Created order, where it is accepted: the value is neither \<^verbatim>\<open>{accepted: false}\<close> nor
  a boolean, and does not tell the two cases apart.
\<close>

theorem rejection_is_logged_counterexample:
  "(\<exists>o' w'.
      Order_cancel ''t5''
        \<lparr>order_id = ''ORD-001'', items = [''Laptop''], state = DeliveredState,
          paymentStatus = ''paid'', shippingStatus = ''ready'',
          deliveryStatus = ''delivered'', stateHistory = 0, createdAt = 0\<rparr>
        \<lparr>arrays = [[]], console = []\<rparr> = Inr (JUndefined, o', w'))
   \<and> (\<exists>o' w'.
      Order_cancel ''t1''
        \<lparr>order_id = ''ORD-001'', items = [''Laptop''], state = CreatedState,
          paymentStatus = ''pending'', shippingStatus = ''not_shipped'',
          deliveryStatus = ''not_delivered'', stateHistory = 0, createdAt = 0\<rparr>
        \<lparr>arrays = [[]], console = []\<rparr> = Inr (JUndefined, o', w'))
   \<and> JUndefined \<noteq> JObj [(''accepted'', JBool False)]
   \<and> JUndefined \<noteq> JBool False"
  by (simp add: order_defs)

subsection \<open>Processing a returned order\<close>




subsection \<open>Handing out the history\<close>

text \<open>
  Claim C10.  For an order, and for a context, whose history field holds an array,
  \<^verbatim>\<open>getStateHistory()\<close> returns a new array (at an address that held none) with the
  elements of the history.  The call leaves the order or context, every array that
  existed and the console as they were.  Whatever is then stored in the returned
  array, the history reads as before.  (The elements are the same record objects in
  both arrays; this is about the arrays.)
\<close>

theorem getStateHistory_copy:
  assumes "stateHistory ord < length (arrays w)" and "ctx_stateHistory ctx < length (arrays w)"
  shows "(\<exists>a w'. Order_getStateHistory ord w = Inr (a, ord, w')
          \<and> a = length (arrays w)
          \<and> arrays w' = arrays w @ [arrays w ! stateHistory ord]
          \<and> console w' = console w
          \<and> array_get a (arrays w') = Some (history ord w)
          \<and> history ord w' = history ord w
          \<and> (\<forall>xs. history ord (w'\<lparr>arrays := (arrays w')[a := xs]\<rparr>) = history ord w))
     \<and> (\<exists>a w'. Context_getStateHistory ctx w = Inr (a, ctx, w')
          \<and> a = length (arrays w)
          \<and> arrays w' = arrays w @ [arrays w ! ctx_stateHistory ctx]
          \<and> console w' = console w
          \<and> array_get a (arrays w') = array_get (ctx_stateHistory ctx) (arrays w)
          \<and> (\<forall>xs. array_get (ctx_stateHistory ctx) ((arrays w')[a := xs])
                = array_get (ctx_stateHistory ctx) (arrays w)))"
  using assms
  by (simp add: Order_getStateHistory_def Context_getStateHistory_def array_spread_def
      array_get_def history_def nth_append)

theorem getStateHistory_copy_witness:
  "stateHistory \<lparr>order_id = ''ORD-001'', items = [''Laptop''], state = ConfirmedState,
       paymentStatus = ''pending'', shippingStatus = ''not_shipped'',
       deliveryStatus = ''not_delivered'', stateHistory = 0, createdAt = 0\<rparr>
     < length (arrays \<lparr>arrays =
         [[\<lparr>tr_from = ''CreatedState'', tr_to = ''ConfirmedState'', tr_timestamp = ''t1''\<rparr>],
          [\<lparr>tr_from = ''None'', tr_to = ''ConcreteStateA'', tr_timestamp = ''t0''\<rparr>]],
         console = []\<rparr>)
   \<and> ctx_stateHistory \<lparr>ctx_state = Some ConcreteStateA, ctx_stateHistory = 1\<rparr>
     < length (arrays \<lparr>arrays =
         [[\<lparr>tr_from = ''CreatedState'', tr_to = ''ConfirmedState'', tr_timestamp = ''t1''\<rparr>],
          [\<lparr>tr_from = ''None'', tr_to = ''ConcreteStateA'', tr_timestamp = ''t0''\<rparr>]],
         console = []\<rparr>)
   \<and> (\<exists>w'. Order_getStateHistory
        \<lparr>order_id = ''ORD-001'', items = [''Laptop''], state = ConfirmedState,
          paymentStatus = ''pending'', shippingStatus = ''not_shipped'',
          deliveryStatus = ''not_delivered'', stateHistory = 0, createdAt = 0\<rparr>
        \<lparr>arrays =
         [[\<lparr>tr_from = ''CreatedState'', tr_to = ''ConfirmedState'', tr_timestamp = ''t1''\<rparr>],
          [\<lparr>tr_from = ''None'', tr_to = ''ConcreteStateA'', tr_timestamp = ''t0''\<rparr>]],
         console = []\<rparr>
      = Inr (2,
          \<lparr>order_id = ''ORD-001'', items = [''Laptop''], state = ConfirmedState,
            paymentStatus = ''pending'', shippingStatus = ''not_shipped'',
            deliveryStatus = ''not_delivered'', stateHistory = 0, createdAt = 0\<rparr>, w')
      \<and> arrays w' =
         [[\<lparr>tr_from = ''CreatedState'', tr_to = ''ConfirmedState'', tr_timestamp = ''t1''\<rparr>],
          [\<lparr>tr_from = ''None'', tr_to = ''ConcreteStateA'', tr_timestamp = ''t0''\<rparr>],
          [\<lparr>tr_from = ''CreatedState'', tr_to = ''ConfirmedState'', tr_timestamp = ''t1''\<rparr>]])
   \<and> (\<exists>w'. Context_getStateHistory \<lparr>ctx_state = Some ConcreteStateA, ctx_stateHistory = 1\<rparr>
        \<lparr>arrays =
         [[\<lparr>tr_from = ''CreatedState'', tr_to = ''ConfirmedState'', tr_timestamp = ''t1''\<rparr>],
          [\<lparr>tr_from = ''None'', tr_to = ''ConcreteStateA'', tr_timestamp = ''t0''\<rparr>]],
         console = []\<rparr>
      = Inr (2, \<lparr>ctx_state = Some ConcreteStateA, ctx_stateHistory = 1\<rparr>, w')
      \<and> arrays w' =
         [[\<lparr>tr_from = ''CreatedState'', tr_to = ''ConfirmedState'', tr_timestamp = ''t1''\<rparr>],
          [\<lparr>tr_from = ''None'', tr_to = ''ConcreteStateA'', tr_timestamp = ''t0''\<rparr>],
          [\<lparr>tr_from = ''None'', tr_to = ''ConcreteStateA'', tr_timestamp = ''t0''\<rparr>]])"
proof -
  let ?o = "\<lparr>order_id = ''ORD-001'', items = [''Laptop''], state = ConfirmedState,
       paymentStatus = ''pending'', shippingStatus = ''not_shipped'',
       deliveryStatus = ''not_delivered'', stateHistory = 0, createdAt = 0\<rparr>"
  let ?c = "\<lparr>ctx_state = Some ConcreteStateA, ctx_stateHistory = 1\<rparr>"
  let ?w = "\<lparr>arrays =
         [[\<lparr>tr_from = ''CreatedState'', tr_to = ''ConfirmedState'', tr_timestamp = ''t1''\<rparr>],
          [\<lparr>tr_from = ''None'', tr_to = ''ConcreteStateA'', tr_timestamp = ''t0''\<rparr>]],
         console = []\<rparr>"
  have h1: "stateHistory ?o < length (arrays ?w)" and h2: "ctx_stateHistory ?c < length (arrays ?w)"
    by simp_all
  have "\<exists>w'. Order_getStateHistory ?o ?w = Inr (length (arrays ?w), ?o, w')
      \<and> arrays w' = arrays ?w @ [arrays ?w ! stateHistory ?o]"
    using getStateHistory_copy [OF h1 h2] by blast
  moreover have "\<exists>w'. Context_getStateHistory ?c ?w = Inr (length (arrays ?w), ?c, w')
      \<and> arrays w' = arrays ?w @ [arrays ?w ! ctx_stateHistory ?c]"
    using getStateHistory_copy [OF h1 h2] by blast
  ultimately show ?thesis
    using h1 h2 by (simp add: numeral_2_eq_2)
qed

end
